theory Spec2Isabelle
  imports Complex_Main "HOL-Library.Word" "HOL-Library.Char_ord" "HOL-Library.List_Lexorder"
    "HOL-Library.Log_Nat"
begin

unbundle bit_operations_syntax

section \<open>Conventions of the embedding\<close>

text \<open>
  The server is JavaScript over SQLite. In the income, net-worth and bill figures a
  JavaScript number is modelled by the exact rational it denotes (\<open>rat\<close>), without
  the rounding of IEEE doubles; where the source divides by a value that can be zero, the
  quotient is a \<open>jsnum\<close>, which adds the non-finite results of JavaScript division.
  The budget analysis decides by comparing computed values with thresholds, and there
  every operation rounds as a double does. A value that may be \<open>NULL\<close> or
  \<open>undefined\<close> is an \<open>option\<close>. A table is the list of its rows; a statement is a
  function on the tables, which fails only where a constraint of the schema rejects it
  (faults of the storage driver are not modelled). Generated ids, the clock and random
  bytes are arguments of the operation that draws them.
\<close>

section \<open>Frequency normalisation\<close>

text \<open>
  The income summary route's helper, a \<open>switch\<close> on the frequency string with
  \<open>default: return 0\<close>.
\<close>

definition calculateMonthlyIncome :: "rat \<Rightarrow> string \<Rightarrow> rat" where
  "calculateMonthlyIncome amount frequency =
     (if frequency = ''weekly'' then amount * 52 / 12
      else if frequency = ''biweekly'' then amount * 26 / 12
      else if frequency = ''monthly'' then amount
      else if frequency = ''quarterly'' then amount / 3
      else if frequency = ''annually'' then amount / 12
      else if frequency = ''variable'' then amount
      else 0)"

text \<open>The scheduler's method \<open>AIScheduler.calculateMonthlyIncome\<close>.\<close>

definition AIScheduler_calculateMonthlyIncome :: "rat \<Rightarrow> string \<Rightarrow> rat" where
  "AIScheduler_calculateMonthlyIncome amount frequency =
     (if frequency = ''weekly'' then amount * 52 / 12
      else if frequency = ''biweekly'' then amount * 26 / 12
      else if frequency = ''monthly'' then amount
      else if frequency = ''quarterly'' then amount / 3
      else if frequency = ''annually'' then amount / 12
      else if frequency = ''variable'' then amount
      else 0)"

text \<open>The copy inside the AI insights route.\<close>

definition insights_calculateMonthlyIncome :: "rat \<Rightarrow> string \<Rightarrow> rat" where
  "insights_calculateMonthlyIncome amount frequency =
     (if frequency = ''weekly'' then amount * 52 / 12
      else if frequency = ''biweekly'' then amount * 26 / 12
      else if frequency = ''monthly'' then amount
      else if frequency = ''quarterly'' then amount / 3
      else if frequency = ''annually'' then amount / 12
      else if frequency = ''variable'' then amount
      else 0)"

text \<open>The copy \<open>calculateMonthly\<close> inside the chat route's income branch.\<close>

definition chat_calculateMonthly :: "rat \<Rightarrow> string \<Rightarrow> rat" where
  "chat_calculateMonthly amount frequency =
     (if frequency = ''weekly'' then amount * 52 / 12
      else if frequency = ''biweekly'' then amount * 26 / 12
      else if frequency = ''monthly'' then amount
      else if frequency = ''quarterly'' then amount / 3
      else if frequency = ''annually'' then amount / 12
      else if frequency = ''variable'' then amount
      else 0)"

text \<open>The copy inside the wealth-growth opportunities route.\<close>

definition opportunities_calculateMonthlyIncome :: "rat \<Rightarrow> string \<Rightarrow> rat" where
  "opportunities_calculateMonthlyIncome amount frequency =
     (if frequency = ''weekly'' then amount * 52 / 12
      else if frequency = ''biweekly'' then amount * 26 / 12
      else if frequency = ''monthly'' then amount
      else if frequency = ''quarterly'' then amount / 3
      else if frequency = ''annually'' then amount / 12
      else if frequency = ''variable'' then amount
      else 0)"

text \<open>The copy \<open>calculateMonthly\<close> inside the \<open>test-api.js\<close> script.\<close>

definition test_api_calculateMonthly :: "rat \<Rightarrow> string \<Rightarrow> rat" where
  "test_api_calculateMonthly amount frequency =
     (if frequency = ''weekly'' then amount * 52 / 12
      else if frequency = ''biweekly'' then amount * 26 / 12
      else if frequency = ''monthly'' then amount
      else if frequency = ''quarterly'' then amount / 3
      else if frequency = ''annually'' then amount / 12
      else if frequency = ''variable'' then amount
      else 0)"

text \<open>The six values the \<open>income_sources.frequency\<close> column admits.\<close>

definition frequencies :: "string list" where
  "frequencies = [''weekly'', ''biweekly'', ''monthly'', ''quarterly'', ''annually'', ''variable'']"

section \<open>Net worth\<close>

record account =
  acc_id :: string
  acc_user_id :: string
  acc_name :: string
  acc_type :: string
  acc_balance :: rat

record retirement_account =
  ret_id :: string
  ret_user_id :: string
  ret_name :: string
  ret_type :: string
  ret_balance :: rat

record asset =
  ast_id :: string
  ast_user_id :: string
  ast_name :: string
  ast_type :: string
  ast_value :: rat

record net_worth_snapshot =
  snap_id :: string
  snap_user_id :: string
  snap_total_assets :: rat
  snap_total_liabilities :: rat
  snap_net_worth :: rat
  snap_date :: string

record wealth_db =
  accounts :: "account list"
  retirement_accounts :: "retirement_account list"
  assets :: "asset list"
  net_worth_snapshots :: "net_worth_snapshot list"

text \<open>SQL \<open>SUM\<close>: \<open>NULL\<close> over no rows.\<close>

definition sql_sum :: "rat list \<Rightarrow> rat option" where
  "sql_sum xs = (if xs = [] then None else Some (sum_list xs))"

text \<open>\<open>COALESCE(SUM(..), 0)\<close>.\<close>

definition coalesce0 :: "rat option \<Rightarrow> rat" where
  "coalesce0 v = (case v of None \<Rightarrow> 0 | Some x \<Rightarrow> x)"

text \<open>
  JavaScript \<open>row?.total || 0\<close> on a number or \<open>null\<close>: the falsy values \<open>null\<close> and
  \<open>0\<close> both give \<open>0\<close>.
\<close>

definition or0 :: "rat option \<Rightarrow> rat" where
  "or0 v = (case v of None \<Rightarrow> 0 | Some x \<Rightarrow> if x = 0 then 0 else x)"

definition asset_types :: "string list" where
  "asset_types = [''checking'', ''savings'']"

definition liability_types :: "string list" where
  "liability_types = [''credit_card'', ''loan'', ''mortgage'', ''other_debt'']"

text \<open>The rows of \<open>assetsQuery\<close>'s inner \<open>UNION ALL\<close>.\<close>

definition assetsQuery_rows :: "wealth_db \<Rightarrow> string \<Rightarrow> rat list" where
  "assetsQuery_rows db userId =
     map acc_balance (filter (\<lambda>a. acc_user_id a = userId \<and> acc_type a \<in> set asset_types) (accounts db))
     @ map ret_balance (filter (\<lambda>r. ret_user_id r = userId) (retirement_accounts db))
     @ map ast_value (filter (\<lambda>a. ast_user_id a = userId) (assets db))"

definition assetsQuery :: "wealth_db \<Rightarrow> string \<Rightarrow> rat option" where
  "assetsQuery db userId = sql_sum (assetsQuery_rows db userId)"

definition liabilitiesQuery :: "wealth_db \<Rightarrow> string \<Rightarrow> rat option" where
  "liabilitiesQuery db userId =
     sql_sum (map (\<lambda>a. \<bar>acc_balance a\<bar>)
       (filter (\<lambda>a. acc_user_id a = userId \<and> acc_type a \<in> set liability_types) (accounts db)))"

record networth_response =
  total_assets :: rat
  total_liabilities :: rat
  net_worth :: rat

text \<open>The handler of \<open>GET /networth\<close>.\<close>

definition get_networth :: "wealth_db \<Rightarrow> string \<Rightarrow> networth_response" where
  "get_networth db userId =
     (let totalAssets = or0 (assetsQuery db userId);
          totalLiabilities = or0 (liabilitiesQuery db userId);
          netWorth = totalAssets - totalLiabilities
      in \<lparr>total_assets = totalAssets, total_liabilities = totalLiabilities, net_worth = netWorth\<rparr>)"

text \<open>The net-worth query of \<open>AIScheduler.getFinancialData\<close>.\<close>

definition getFinancialData_net_worth :: "wealth_db \<Rightarrow> string \<Rightarrow> rat" where
  "getFinancialData_net_worth db userId =
     or0 (Some (
       coalesce0 (sql_sum (map acc_balance
         (filter (\<lambda>a. acc_user_id a = userId \<and> acc_type a \<in> set asset_types) (accounts db))))
       + coalesce0 (sql_sum (map ret_balance (filter (\<lambda>r. ret_user_id r = userId) (retirement_accounts db))))
       + coalesce0 (sql_sum (map ast_value (filter (\<lambda>a. ast_user_id a = userId) (assets db))))
       - coalesce0 (sql_sum (map (\<lambda>a. \<bar>acc_balance a\<bar>)
         (filter (\<lambda>a. acc_user_id a = userId \<and> acc_type a \<in> set liability_types) (accounts db))))))"

text \<open>The three accounts of the spec's example, owned by one user.\<close>

definition example_accounts :: "account list" where
  "example_accounts =
     [\<lparr>acc_id = ''a1'', acc_user_id = ''u1'', acc_name = ''Checking'', acc_type = ''checking'', acc_balance = 1000\<rparr>,
      \<lparr>acc_id = ''a2'', acc_user_id = ''u1'', acc_name = ''Savings'', acc_type = ''savings'', acc_balance = 2000\<rparr>,
      \<lparr>acc_id = ''a3'', acc_user_id = ''u1'', acc_name = ''Card'', acc_type = ''credit_card'', acc_balance = - 500\<rparr>]"

definition example_wealth_db :: wealth_db where
  "example_wealth_db =
     \<lparr>accounts = example_accounts, retirement_accounts = [], assets = [], net_worth_snapshots = []\<rparr>"

section \<open>JavaScript values\<close>

text \<open>
  The result of a JavaScript division whose divisor may be zero: a finite value, or one
  of \<open>Infinity\<close>, \<open>-Infinity\<close> and \<open>NaN\<close>.
\<close>

datatype jsnum = Fin rat | PosInfinity | NegInfinity | NaN

definition js_div :: "rat \<Rightarrow> rat \<Rightarrow> jsnum" where
  "js_div a b =
     (if b \<noteq> 0 then Fin (a / b)
      else if 0 < a then PosInfinity
      else if a < 0 then NegInfinity
      else NaN)"

text \<open>Multiplication of such a quotient by a finite factor.\<close>

definition js_times :: "jsnum \<Rightarrow> rat \<Rightarrow> jsnum" where
  "js_times x c =
     (case x of
        Fin a \<Rightarrow> Fin (a * c)
      | PosInfinity \<Rightarrow> (if 0 < c then PosInfinity else if c < 0 then NegInfinity else NaN)
      | NegInfinity \<Rightarrow> (if 0 < c then NegInfinity else if c < 0 then PosInfinity else NaN)
      | NaN \<Rightarrow> NaN)"

text \<open>A JSON value of a request or response field that is a number in one branch and a
  string or a boolean in another.\<close>

datatype json = JNull | JBool bool | JNum rat | JStr string

text \<open>JavaScript truthiness, as \<open>x ? a : b\<close> and \<open>!x\<close> test it; \<open>None\<close> is \<open>undefined\<close>.\<close>

fun truthy :: "json option \<Rightarrow> bool" where
  "truthy None = False"
| "truthy (Some JNull) = False"
| "truthy (Some (JBool b)) = b"
| "truthy (Some (JNum n)) = (n \<noteq> 0)"
| "truthy (Some (JStr s)) = (s \<noteq> [])"

definition digit_char :: "nat \<Rightarrow> char" where
  "digit_char d = char_of (48 + d)"

text \<open>The decimal digits of a natural number, as string conversion prints an integer.\<close>

fun digits_of :: "nat \<Rightarrow> string" where
  "digits_of n = (if n < 10 then [digit_char n] else digits_of (n div 10) @ [digit_char (n mod 10)])"

declare digits_of.simps [simp del]

text \<open>
  \<open>Number.prototype.toFixed(f)\<close>: non-finite values print their names; otherwise the
  sign is split off, the magnitude is rounded to the nearest multiple of \<open>10\<^sup>-\<^sup>f\<close> (the
  larger one on a tie), and the digits are padded with zeros so that at least one stands
  before the point. Magnitudes of \<open>10\<^sup>2\<^sup>1\<close> and above, which JavaScript prints in exponent
  notation, are printed in the same positional form here.
\<close>

definition toFixed :: "nat \<Rightarrow> jsnum \<Rightarrow> string" where
  "toFixed f x =
     (case x of
        NaN \<Rightarrow> ''NaN''
      | PosInfinity \<Rightarrow> ''Infinity''
      | NegInfinity \<Rightarrow> ''-Infinity''
      | Fin r \<Rightarrow>
          (let s = (if r < 0 then ''-'' else []);
               n = nat \<lfloor>\<bar>r\<bar> * 10 ^ f + 1 / 2\<rfloor>;
               m = digits_of n
           in if f \<noteq> 0 then
                (let m' = (if length m \<le> f then replicate (f + 1 - length m) (CHR ''0'') @ m else m);
                     k = length m'
                 in s @ take (k - f) m' @ ''.'' @ drop (k - f) m')
              else s @ m))"

section \<open>Bill analytics\<close>

text \<open>A row of the \<open>bills\<close> table.\<close>

record bill =
  bill_id :: string
  bill_user_id :: string
  bill_name :: string
  bill_type :: string
  target_amount :: rat
  due_day :: "int option"
  is_active :: "int option"
  bill_notes :: "string option"
  bill_created_at :: string

text \<open>A row of the summary's grouped payment query
  (\<open>GROUP BY bill_id, month_year\<close>).\<close>

record payment_group =
  pg_bill_id :: string
  pg_month_year :: string
  pg_total_paid :: rat
  pg_avg_paid :: rat

record trend_entry =
  te_month :: string
  te_amount :: rat
  te_target :: rat
  te_variance :: rat
  te_variance_percent :: string

record bill_with_trend =
  bt_bill :: bill
  bt_average_paid :: rat
  bt_variance :: rat
  bt_variance_percent :: json
  bt_trend_data :: "trend_entry list"
  bt_payments_count :: nat

record summary_response =
  total_target_monthly :: rat
  total_average_paid :: "rat option"
  overall_variance :: rat
  overall_variance_percent :: "json option"
  bills_with_trends :: "bill_with_trend list"

text \<open>The entry built for one grouped payment row in the per-bill \<open>trend\<close> array.\<close>

definition trend_of :: "bill \<Rightarrow> payment_group \<Rightarrow> trend_entry" where
  "trend_of b p =
     \<lparr>te_month = pg_month_year p,
      te_amount = pg_total_paid p,
      te_target = target_amount b,
      te_variance = pg_total_paid p - target_amount b,
      te_variance_percent =
        toFixed 1 (js_times (js_div (pg_total_paid p - target_amount b) (target_amount b)) 100)\<rparr>"

text \<open>The callback of \<open>bills.map\<close> in \<open>GET /analytics/summary\<close>.\<close>

definition bill_with_trends :: "payment_group list \<Rightarrow> bill \<Rightarrow> bill_with_trend" where
  "bill_with_trends payments b =
     (let billPayments = filter (\<lambda>p. pg_bill_id p = bill_id b) payments;
          trend = map (trend_of b) billPayments;
          avgPaid = (if length billPayments > 0
                     then sum_list (map pg_total_paid billPayments) / of_nat (length billPayments)
                     else 0)
      in \<lparr>bt_bill = b,
          bt_average_paid = avgPaid,
          bt_variance = avgPaid - target_amount b,
          bt_variance_percent =
            (if target_amount b > 0
             then JStr (toFixed 1 (js_times (js_div (avgPaid - target_amount b) (target_amount b)) 100))
             else JNum 0),
          bt_trend_data = trend,
          bt_payments_count = length billPayments\<rparr>)"

text \<open>
  \<open>GET /analytics/summary\<close>, given the user's active bills and the grouped payments of
  those bills for the window.
\<close>

definition analytics_summary :: "bill list \<Rightarrow> payment_group list \<Rightarrow> summary_response" where
  "analytics_summary bills payments =
     (if length bills = 0 then
        \<lparr>total_target_monthly = 0, total_average_paid = None, overall_variance = 0,
         overall_variance_percent = None, bills_with_trends = []\<rparr>
      else
        (let total_target = sum_list (map target_amount bills);
             billsWithTrends = map (bill_with_trends payments) bills;
             totalAvgPaid = sum_list (map bt_average_paid billsWithTrends);
             overall = totalAvgPaid - total_target
         in \<lparr>total_target_monthly = total_target,
             total_average_paid = Some totalAvgPaid,
             overall_variance = overall,
             overall_variance_percent =
               Some (if total_target > 0
                     then JStr (toFixed 1 (js_times (js_div (totalAvgPaid - total_target) total_target) 100))
                     else JNum 0),
             bills_with_trends = billsWithTrends\<rparr>))"

text \<open>A row of the trends route's monthly query (\<open>GROUP BY month_year\<close>).\<close>

record monthly_total =
  mt_month_year :: string
  mt_total_paid :: rat

record monthly_entry =
  me_month :: string
  me_actual :: rat
  me_target :: rat
  me_variance :: rat
  me_variance_percent :: string

text \<open>
  \<open>GET /analytics/trends\<close>, given the user's active bills and the monthly payment
  totals; the result is the \<open>monthly_data\<close> array.
\<close>

definition analytics_trends :: "bill list \<Rightarrow> monthly_total list \<Rightarrow> monthly_entry list" where
  "analytics_trends bills monthlyTotals =
     (if length bills = 0 then []
      else
        (let totalTarget = sum_list (map target_amount bills)
         in map (\<lambda>m.
              \<lparr>me_month = mt_month_year m,
               me_actual = mt_total_paid m,
               me_target = totalTarget,
               me_variance = mt_total_paid m - totalTarget,
               me_variance_percent =
                 toFixed 1 (js_times (js_div (mt_total_paid m - totalTarget) totalTarget) 100)\<rparr>)
            monthlyTotals))"

text \<open>
  An active bill whose target was set to 0 through \<open>PUT /:id\<close> (which does not validate
  the amount), with one month's payments of 50.
\<close>

definition zero_target_bill :: bill where
  "zero_target_bill =
     \<lparr>bill_id = ''b1'', bill_user_id = ''u1'', bill_name = ''Water'', bill_type = ''water'',
      target_amount = 0, due_day = None, is_active = Some 1, bill_notes = None,
      bill_created_at = ''2024-01-01 00:00:00''\<rparr>"

definition zero_target_payments :: "payment_group list" where
  "zero_target_payments =
     [\<lparr>pg_bill_id = ''b1'', pg_month_year = ''2024-01'', pg_total_paid = 50, pg_avg_paid = 50\<rparr>]"

definition zero_target_monthly :: "monthly_total list" where
  "zero_target_monthly = [\<lparr>mt_month_year = ''2024-01'', mt_total_paid = 50\<rparr>]"

section \<open>Double arithmetic\<close>

text \<open>
  The budget analysis compares computed percentages and differences with thresholds, so
  its numbers are modelled as IEEE 754 binary64 values: a finite double is the rational
  it denotes, and every operation rounds its exact result to the nearest double, ties to
  the even significand. The two zeros are identified.

  \<open>ilog2 x\<close> is the binary exponent of a positive rational: the \<open>e\<close> with
  \<open>2\<^sup>e \<le> x < 2\<^sup>e\<^sup>+\<^sup>1\<close>.
\<close>

definition ilog2 :: "rat \<Rightarrow> int" where
  "ilog2 x = (case quotient_of x of (p, q) \<Rightarrow>
               (let d = bitlen p - bitlen q in if 2 powi d \<le> x then d else d - 1))"

text \<open>Rounding to the nearest integer, a tie to the even one.\<close>

definition round_half_even :: "rat \<Rightarrow> int" where
  "round_half_even m =
     (let n = \<lfloor>m\<rfloor>; f = m - of_int n
      in if f < 1 / 2 then n else if 1 / 2 < f then n + 1 else if even n then n else n + 1)"

text \<open>
  The nearest multiple of the unit in the last place: 53 significant bits, and the fixed
  unit \<open>2\<^sup>-\<^sup>1\<^sup>0\<^sup>7\<^sup>4\<close> below the smallest normal exponent.
\<close>

definition nearest_double :: "rat \<Rightarrow> rat" where
  "nearest_double x =
     (let e = max (ilog2 \<bar>x\<bar>) (- 1022);
          ulp = 2 powi (e - 52)
      in of_int (round_half_even (x / ulp)) * ulp)"

definition overflow_threshold :: rat where
  "overflow_threshold = 2 powi 1024"

text \<open>The double an exact result rounds to; a result that rounds to \<open>2\<^sup>1\<^sup>0\<^sup>2\<^sup>4\<close> or beyond
  overflows to an infinity.\<close>

definition to_double :: "rat \<Rightarrow> jsnum" where
  "to_double x =
     (if x = 0 then Fin 0
      else
        (let r = nearest_double x
         in if overflow_threshold \<le> \<bar>r\<bar> then (if 0 < x then PosInfinity else NegInfinity)
            else Fin r))"

text \<open>The operators \<open><\<close>, unary \<open>-\<close>, \<open>+\<close>, \<open>-\<close>, \<open>*\<close> and \<open>/\<close> on numbers.\<close>

fun d_less :: "jsnum \<Rightarrow> jsnum \<Rightarrow> bool" where
  "d_less NaN y = False"
| "d_less x NaN = False"
| "d_less (Fin a) (Fin b) = (a < b)"
| "d_less x NegInfinity = False"
| "d_less NegInfinity y = True"
| "d_less PosInfinity y = False"
| "d_less x PosInfinity = True"

definition d_neg :: "jsnum \<Rightarrow> jsnum" where
  "d_neg x = (case x of Fin a \<Rightarrow> Fin (- a) | PosInfinity \<Rightarrow> NegInfinity
              | NegInfinity \<Rightarrow> PosInfinity | NaN \<Rightarrow> NaN)"

fun d_add :: "jsnum \<Rightarrow> jsnum \<Rightarrow> jsnum" where
  "d_add NaN y = NaN"
| "d_add x NaN = NaN"
| "d_add (Fin a) (Fin b) = to_double (a + b)"
| "d_add PosInfinity NegInfinity = NaN"
| "d_add NegInfinity PosInfinity = NaN"
| "d_add (Fin a) y = y"
| "d_add x y = x"

definition d_sub :: "jsnum \<Rightarrow> jsnum \<Rightarrow> jsnum" where
  "d_sub x y = d_add x (d_neg y)"

fun d_mul :: "jsnum \<Rightarrow> jsnum \<Rightarrow> jsnum" where
  "d_mul NaN y = NaN"
| "d_mul x NaN = NaN"
| "d_mul (Fin a) (Fin b) = to_double (a * b)"
| "d_mul (Fin a) y = (if a = 0 then NaN else if 0 < a then y else d_neg y)"
| "d_mul x (Fin b) = (if b = 0 then NaN else if 0 < b then x else d_neg x)"
| "d_mul PosInfinity y = y"
| "d_mul NegInfinity y = d_neg y"

fun d_div :: "jsnum \<Rightarrow> jsnum \<Rightarrow> jsnum" where
  "d_div NaN y = NaN"
| "d_div x NaN = NaN"
| "d_div (Fin a) (Fin b) =
     (if b \<noteq> 0 then to_double (a / b)
      else if 0 < a then PosInfinity else if a < 0 then NegInfinity else NaN)"
| "d_div (Fin a) y = Fin 0"
| "d_div x (Fin b) = (if 0 \<le> b then x else d_neg x)"
| "d_div x y = NaN"

text \<open>\<open>x || 0\<close> on a number or \<open>NULL\<close>: \<open>null\<close>, \<open>0\<close> and \<open>NaN\<close> are falsy.\<close>

definition or_zero :: "jsnum option \<Rightarrow> jsnum" where
  "or_zero v = (case v of None \<Rightarrow> Fin 0 | Some NaN \<Rightarrow> Fin 0 | Some x \<Rightarrow> x)"

text \<open>The literals \<open>0.15\<close> and \<open>0.20\<close>.\<close>

definition lit_0_15 :: jsnum where
  "lit_0_15 = to_double (15 / 100)"

definition lit_0_20 :: jsnum where
  "lit_0_20 = to_double (20 / 100)"

section \<open>Budget analysis\<close>

text \<open>A row of the analysis route's expense query (\<open>GROUP BY category\<close>); the sum and
  the average are doubles.\<close>

record expense_row =
  category :: string
  total :: jsnum
  transaction_count :: nat
  avg_transaction :: jsnum

record suggestion =
  sg_type :: string
  sg_category :: string
  sg_message :: string
  potential_savings :: jsnum

record analysis_response =
  an_total_income :: jsnum
  an_total_expenses :: jsnum
  an_savings_rate :: json
  an_expenses :: "expense_row list"
  an_suggestions :: "suggestion list"
  an_total_potential_savings :: jsnum

text \<open>\<open>(exp.total / totalIncome) * 100\<close>.\<close>

definition percentage_of :: "jsnum \<Rightarrow> jsnum \<Rightarrow> jsnum" where
  "percentage_of amount totalIncome = d_mul (d_div amount totalIncome) (Fin 100)"

text \<open>Rule 1: categories over 30% of income.\<close>

definition rule1 :: "jsnum \<Rightarrow> expense_row list \<Rightarrow> suggestion list" where
  "rule1 totalIncome expenses =
     (if d_less (Fin 0) totalIncome then
        concat (map (\<lambda>exp.
          (let percentage = percentage_of (total exp) totalIncome
           in if d_less (Fin 30) percentage then
                [\<lparr>sg_type = ''high_spending'',
                  sg_category = category exp,
                  sg_message = category exp @ '' spending is '' @ toFixed 1 percentage
                    @ ''% of your income. Consider reducing by 10-15%.'',
                  potential_savings = d_mul (total exp) lit_0_15\<rparr>]
              else [])) expenses)
      else [])"

text \<open>Rule 2: many small transactions.\<close>

definition rule2 :: "expense_row list \<Rightarrow> suggestion list" where
  "rule2 expenses =
     concat (map (\<lambda>exp.
       if transaction_count exp > 10 \<and> d_less (avg_transaction exp) (Fin 50) then
         [\<lparr>sg_type = ''subscription_check'',
           sg_category = category exp,
           sg_message = ''You have '' @ digits_of (transaction_count exp)
             @ '' small transactions in '' @ category exp @ ''. Review for unused subscriptions.'',
           potential_savings = d_mul (total exp) lit_0_20\<rparr>]
       else []) expenses)"

text \<open>Rule 3: the savings-rate recommendation.\<close>

definition rule3 :: "jsnum \<Rightarrow> jsnum \<Rightarrow> suggestion list" where
  "rule3 totalIncome totalExpenses =
     (let recommended_savings = d_mul totalIncome lit_0_20;
          actual_savings = d_sub totalIncome totalExpenses
      in if d_less actual_savings recommended_savings then
           [\<lparr>sg_type = ''savings_goal'',
             sg_category = ''general'',
             sg_message = ''Aim to save 20% of income ($'' @ toFixed 2 recommended_savings
               @ ''). Currently saving $'' @ toFixed 2 actual_savings @ ''.'',
             potential_savings = d_sub recommended_savings actual_savings\<rparr>]
         else [])"

text \<open>
  \<open>GET /analysis\<close>, given the month's expense rows and the month's income sum
  (\<open>NULL\<close> when the user has no income transaction). \<open>reduce\<close> adds from the left,
  starting at 0.
\<close>

definition analysis :: "expense_row list \<Rightarrow> jsnum option \<Rightarrow> analysis_response" where
  "analysis expenses income =
     (let totalIncome = or_zero income;
          totalExpenses = foldl d_add (Fin 0) (map total expenses);
          suggestions = rule1 totalIncome expenses @ rule2 expenses @ rule3 totalIncome totalExpenses;
          actual_savings = d_sub totalIncome totalExpenses
      in \<lparr>an_total_income = totalIncome,
          an_total_expenses = totalExpenses,
          an_savings_rate =
            (if d_less (Fin 0) totalIncome
             then JStr (toFixed 1 (d_mul (d_div actual_savings totalIncome) (Fin 100)))
             else JNum 0),
          an_expenses = expenses,
          an_suggestions = suggestions,
          an_total_potential_savings =
            foldl (\<lambda>sum s. d_add sum (or_zero (Some (potential_savings s)))) (Fin 0) suggestions\<rparr>)"

section \<open>Bills and bill payments\<close>

text \<open>A row of the \<open>bill_payments\<close> table.\<close>

record bill_payment =
  pay_id :: string
  pay_bill_id :: string
  pay_user_id :: string
  amount_paid :: rat
  payment_date :: string
  pay_month_year :: string
  pay_notes :: "string option"
  pay_created_at :: string

text \<open>
  The two tables the bills router works on. SQLite does not enforce the declared foreign
  keys (the server never enables them), so a payment row may name any bill id.
\<close>

record bills_db =
  bills :: "bill list"
  bill_payments :: "bill_payment list"

text \<open>An HTTP response: a status with a JSON body, or a status with \<open>{error: ...}\<close>.\<close>

datatype 'a reply = Json nat 'a | Error nat string

text \<open>The JSON body of \<open>PUT /:id\<close>; an absent or \<open>null\<close> field is \<open>None\<close>.\<close>

record bill_body =
  b_bill_name :: "string option"
  b_bill_type :: "string option"
  b_target_amount :: "rat option"
  b_due_day :: "int option"
  b_is_active :: "json option"
  b_notes :: "string option"

text \<open>The \<open>CHECK\<close> constraint of \<open>bills.bill_type\<close>.\<close>

definition bill_types :: "string list" where
  "bill_types = [''electric'', ''water'', ''gas'', ''internet'', ''phone'', ''hoa'',
     ''insurance'', ''subscription'', ''other'']"

text \<open>
  The row that \<open>UPDATE bills SET bill_name = ?, bill_type = ?, target_amount = ?,
  due_day = ?, is_active = ?, notes = ?\<close> writes over a matching row, or \<open>None\<close> when
  a \<open>NOT NULL\<close> or \<open>CHECK\<close> constraint of the table rejects the values. The handler
  binds \<open>is_active ? 1 : 0\<close>.
\<close>

definition update_bill_row :: "bill_body \<Rightarrow> bill \<Rightarrow> bill option" where
  "update_bill_row body b =
     (case (b_bill_name body, b_bill_type body, b_target_amount body) of
        (Some name, Some ty, Some amount) \<Rightarrow>
          if ty \<in> set bill_types then
            Some (b\<lparr>bill_name := name, bill_type := ty, target_amount := amount,
                    due_day := b_due_day body,
                    is_active := Some (if truthy (b_is_active body) then 1 else 0),
                    bill_notes := b_notes body\<rparr>)
          else None
      | _ \<Rightarrow> None)"

text \<open>
  \<open>PUT /:id\<close>: one \<open>UPDATE ... WHERE id = ? AND user_id = ?\<close>. A constraint is
  checked on the rows the statement touches; a violation fails the statement (500) and
  changes nothing; no touched row gives 404.
\<close>

definition put_bill :: "bills_db \<Rightarrow> string \<Rightarrow> string \<Rightarrow> bill_body \<Rightarrow> string reply \<times> bills_db" where
  "put_bill db userId id' body =
     (let matches = (\<lambda>b. bill_id b = id' \<and> bill_user_id b = userId);
          changes = length (filter matches (bills db))
      in if changes \<noteq> 0 \<and> (\<exists>b \<in> set (filter matches (bills db)). update_bill_row body b = None)
           then (Error 500 ''Error updating bill'', db)
         else if changes = 0 then (Error 404 ''Bill not found'', db)
         else (Json 200 ''Bill updated successfully'',
               db\<lparr>bills := map (\<lambda>b. if matches b then the (update_bill_row body b) else b) (bills db)\<rparr>))"

text \<open>\<open>ORDER BY payment_date DESC\<close>; the dates are text and compare bytewise.\<close>

definition order_by_payment_date_desc :: "bill_payment list \<Rightarrow> bill_payment list" where
  "order_by_payment_date_desc ps = rev (sort_key payment_date ps)"


text \<open>
  \<open>DELETE /:id\<close>: first \<open>DELETE FROM bill_payments WHERE bill_id = ?\<close>, then
  \<open>DELETE FROM bills WHERE id = ? AND user_id = ?\<close>; 404 when the second statement
  deletes nothing.
\<close>

definition delete_bill :: "bills_db \<Rightarrow> string \<Rightarrow> string \<Rightarrow> string reply \<times> bills_db" where
  "delete_bill db userId id' =
     (let db1 = db\<lparr>bill_payments := filter (\<lambda>p. pay_bill_id p \<noteq> id') (bill_payments db)\<rparr>;
          matches = (\<lambda>b. bill_id b = id' \<and> bill_user_id b = userId);
          changes = length (filter matches (bills db1));
          db2 = db1\<lparr>bills := filter (\<lambda>b. \<not> matches b) (bills db1)\<rparr>
      in if changes = 0 then (Error 404 ''Bill not found'', db2)
         else (Json 200 ''Bill deleted successfully'', db2))"

text \<open>
  \<open>GET /:id/payments\<close>: the handler does not read the user; \<open>limit\<close> is the parsed
  query parameter when one is given (a negative SQLite \<open>LIMIT\<close> means no limit).
\<close>

definition get_payments :: "bills_db \<Rightarrow> string \<Rightarrow> string \<Rightarrow> int option \<Rightarrow> bill_payment list reply" where
  "get_payments db userId bill_id' limit =
     (let rows = order_by_payment_date_desc (filter (\<lambda>p. pay_bill_id p = bill_id') (bill_payments db))
      in Json 200 (case limit of
                     None \<Rightarrow> rows
                   | Some n \<Rightarrow> if n < 0 then rows else take (nat n) rows))"

text \<open>\<open>DELETE /payments/:payment_id\<close>: \<open>DELETE ... WHERE id = ? AND user_id = ?\<close>.\<close>

definition delete_payment :: "bills_db \<Rightarrow> string \<Rightarrow> string \<Rightarrow> string reply \<times> bills_db" where
  "delete_payment db userId payment_id =
     (let matches = (\<lambda>p. pay_id p = payment_id \<and> pay_user_id p = userId);
          changes = length (filter matches (bill_payments db))
      in if changes = 0 then (Error 404 ''Payment not found'', db)
         else (Json 200 ''Payment deleted successfully'',
               db\<lparr>bill_payments := filter (\<lambda>p. \<not> matches p) (bill_payments db)\<rparr>))"



text \<open>Two users: Bob owns a bill with one recorded payment; Alice owns nothing.\<close>

definition bobs_bill :: bill where
  "bobs_bill =
     \<lparr>bill_id = ''b1'', bill_user_id = ''bob'', bill_name = ''Power'', bill_type = ''electric'',
      target_amount = 120, due_day = Some 5, is_active = Some 1, bill_notes = None,
      bill_created_at = ''2024-01-01 00:00:00''\<rparr>"

definition bobs_payment :: bill_payment where
  "bobs_payment =
     \<lparr>pay_id = ''p1'', pay_bill_id = ''b1'', pay_user_id = ''bob'', amount_paid = 118,
      payment_date = ''2024-02-05'', pay_month_year = ''2024-02'', pay_notes = None,
      pay_created_at = ''2024-02-05 09:00:00''\<rparr>"

definition two_user_db :: bills_db where
  "two_user_db = \<lparr>bills = [bobs_bill], bill_payments = [bobs_payment]\<rparr>"


section \<open>LLM provider fallback\<close>

text \<open>
  The text of a prompt or of a model's answer is a JavaScript string: a list of UTF-16
  code units. Identifiers, tokens and error messages are plain \<open>string\<close>s.
\<close>

type_synonym jsstring = "nat list"

definition ascii :: "string \<Rightarrow> jsstring" where
  "ascii s = map of_char s"

text \<open>The code units that \<open>String.prototype.trim\<close> strips and that \<open>\s\<close> matches:
  white space and line terminators.\<close>

definition is_space :: "nat \<Rightarrow> bool" where
  "is_space c \<longleftrightarrow>
     c \<in> {9, 10, 11, 12, 13, 32, 160, 5760, 8232, 8233, 8239, 8287, 12288, 65279}
     \<or> (8192 \<le> c \<and> c \<le> 8202)"

definition trim :: "jsstring \<Rightarrow> jsstring" where
  "trim s = rev (dropWhile is_space (rev (dropWhile is_space s)))"

text \<open>A row of \<open>ai_tokens\<close>, with the columns the statements of the server name.\<close>

record ai_token =
  tok_id :: string
  tok_user_id :: string
  tok_service :: string
  token_encrypted :: string
  tok_is_active :: "int option"
  last_used :: "string option"

record ai_db =
  ai_tokens :: "ai_token list"

text \<open>
  \<open>getUserTokens\<close>: the user's active rows, each decrypted; a row whose token does not
  decrypt is logged and skipped, and a later row of the same service overwrites an
  earlier one. \<open>dec\<close> is \<open>decrypt\<close> under the server's key.
\<close>

definition getUserTokens :: "(string \<Rightarrow> string + string) \<Rightarrow> ai_db \<Rightarrow> string \<Rightarrow> (string \<rightharpoonup> string)" where
  "getUserTokens dec db userId =
     fold (\<lambda>row tokens.
             case dec (token_encrypted row) of
               Inr token \<Rightarrow> tokens(tok_service row \<mapsto> token)
             | Inl e \<Rightarrow> tokens)
          (filter (\<lambda>r. tok_user_id r = userId \<and> tok_is_active r = Some 1) (ai_tokens db))
          Map.empty"

text \<open>\<open>updateLastUsed\<close>: \<open>UPDATE ai_tokens SET last_used = CURRENT_TIMESTAMP WHERE
  user_id = ? AND service = ?\<close>.\<close>

definition updateLastUsed :: "string \<Rightarrow> ai_db \<Rightarrow> string \<Rightarrow> string \<Rightarrow> ai_db" where
  "updateLastUsed now db userId service =
     db\<lparr>ai_tokens := map (\<lambda>r. if tok_user_id r = userId \<and> tok_service r = service
                                then r\<lparr>last_used := Some now\<rparr> else r) (ai_tokens db)\<rparr>"

record llm_options =
  opt_model :: "string option"
  opt_systemPrompt :: "jsstring option"
  opt_maxTokens :: "nat option"
  opt_temperature :: "rat option"

text \<open>
  The remote services: given the service name, the token, the prompt and the options, a
  request either fails with a message or yields the text extracted from the response.
\<close>

type_synonym llm_net = "string \<Rightarrow> string \<Rightarrow> jsstring \<Rightarrow> llm_options \<Rightarrow> string + jsstring"

text \<open>
  The four wrappers: each rethrows a failure under its own prefix. The field
  \<open>lastProvider\<close> they assign is read nowhere in the server and is not tracked; it
  is not the \<open>last_used\<close> column.
\<close>

definition callGroq :: "llm_net \<Rightarrow> string \<Rightarrow> jsstring \<Rightarrow> llm_options \<Rightarrow> string + jsstring" where
  "callGroq net token prompt options =
     (case net ''groq'' token prompt options of
        Inl msg \<Rightarrow> Inl (''Groq API failed: '' @ msg)
      | Inr text \<Rightarrow> Inr text)"

definition callHuggingFace :: "llm_net \<Rightarrow> string \<Rightarrow> jsstring \<Rightarrow> llm_options \<Rightarrow> string + jsstring" where
  "callHuggingFace net token prompt options =
     (case net ''huggingface'' token prompt options of
        Inl msg \<Rightarrow> Inl (''Hugging Face API failed: '' @ msg)
      | Inr text \<Rightarrow> Inr text)"

definition callTogether :: "llm_net \<Rightarrow> string \<Rightarrow> jsstring \<Rightarrow> llm_options \<Rightarrow> string + jsstring" where
  "callTogether net token prompt options =
     (case net ''together'' token prompt options of
        Inl msg \<Rightarrow> Inl (''Together AI API failed: '' @ msg)
      | Inr text \<Rightarrow> Inr text)"

definition callOpenRouter :: "llm_net \<Rightarrow> string \<Rightarrow> jsstring \<Rightarrow> llm_options \<Rightarrow> string + jsstring" where
  "callOpenRouter net token prompt options =
     (case net ''openrouter'' token prompt options of
        Inl msg \<Rightarrow> Inl (''OpenRouter API failed: '' @ msg)
      | Inr text \<Rightarrow> Inr text)"

text \<open>The \<open>providers\<close> array of \<open>generateCompletion\<close>, in its priority order.\<close>

definition providers :: "llm_net \<Rightarrow> (string \<times> (string \<Rightarrow> jsstring \<Rightarrow> llm_options \<Rightarrow> string + jsstring)) list" where
  "providers net =
     [(''groq'', callGroq net), (''huggingface'', callHuggingFace net),
      (''together'', callTogether net), (''openrouter'', callOpenRouter net)]"

record completion =
  cp_text :: jsstring
  cp_provider :: string
  cp_model :: string
  cp_tokenCount :: rat

text \<open>The object \<open>generateCompletion\<close> returns for a provider's text:
  \<open>text.trim()\<close>, the provider, \<open>options.model || 'default'\<close> and \<open>text.length / 4\<close>.\<close>

definition completion_of :: "llm_options \<Rightarrow> string \<Rightarrow> jsstring \<Rightarrow> completion" where
  "completion_of options name text =
     \<lparr>cp_text = trim text, cp_provider = name,
      cp_model = (case opt_model options of
                    None \<Rightarrow> ''default''
                  | Some m \<Rightarrow> if m = [] then ''default'' else m),
      cp_tokenCount = of_nat (length text) / 4\<rparr>"

text \<open>The single error \<open>generateCompletion\<close> throws after the loop.\<close>

definition aggregated_error :: "string option \<Rightarrow> string" where
  "aggregated_error lastError =
     (case lastError of
        Some msg \<Rightarrow> ''All AI providers failed. Last error: '' @ msg
      | None \<Rightarrow> ''No AI tokens configured. Please add at least one token in AI Settings.'')"

text \<open>
  The outcome of \<open>generateCompletion\<close>: the thrown message or the returned object,
  the database after the call, and the providers attempted, in order (the handler logs
  each attempt).
\<close>

record completion_outcome =
  co_result :: "string + completion"
  co_db :: ai_db
  co_attempted :: "string list"

text \<open>
  The \<open>for\<close> loop over the providers: \<open>tokens[provider.name]\<close> must be truthy (a
  non-empty string) for an attempt; a failure is remembered in \<open>lastError\<close> and the
  loop continues; the first success updates \<open>last_used\<close> and returns.
\<close>

fun try_providers ::
  "string \<Rightarrow> ai_db \<Rightarrow> string \<Rightarrow> (string \<rightharpoonup> string) \<Rightarrow> jsstring \<Rightarrow> llm_options \<Rightarrow>
   (string \<times> (string \<Rightarrow> jsstring \<Rightarrow> llm_options \<Rightarrow> string + jsstring)) list \<Rightarrow>
   string option \<Rightarrow> string list \<Rightarrow> completion_outcome" where
  "try_providers now db userId tokens prompt options [] lastError attempted =
     \<lparr>co_result = Inl (aggregated_error lastError), co_db = db, co_attempted = attempted\<rparr>"
| "try_providers now db userId tokens prompt options ((name, method) # rest) lastError attempted =
     (case tokens name of
        None \<Rightarrow> try_providers now db userId tokens prompt options rest lastError attempted
      | Some token \<Rightarrow>
          if token = [] then try_providers now db userId tokens prompt options rest lastError attempted
          else
            (case method token prompt options of
               Inr text \<Rightarrow>
                 \<lparr>co_result = Inr (completion_of options name text),
                  co_db = updateLastUsed now db userId name,
                  co_attempted = attempted @ [name]\<rparr>
             | Inl msg \<Rightarrow>
                 try_providers now db userId tokens prompt options rest (Some msg)
                   (attempted @ [name])))"

definition generateCompletion ::
  "llm_net \<Rightarrow> (string \<Rightarrow> string + string) \<Rightarrow> string \<Rightarrow> ai_db \<Rightarrow> string \<Rightarrow> jsstring \<Rightarrow> llm_options \<Rightarrow>
   completion_outcome" where
  "generateCompletion net dec now db userId prompt options =
     try_providers now db userId (getUserTokens dec db userId) prompt options (providers net) None []"

text \<open>Whether a provider is attempted: the user has a decrypted, non-empty token for it.\<close>

definition has_token :: "(string \<rightharpoonup> string) \<Rightarrow> string \<Rightarrow> bool" where
  "has_token tokens name = (case tokens name of None \<Rightarrow> False | Some t \<Rightarrow> t \<noteq> [])"

text \<open>The four provider names in the fixed order.\<close>

definition provider_order :: "string list" where
  "provider_order = [''groq'', ''huggingface'', ''together'', ''openrouter'']"

text \<open>What one entry of the \<open>providers\<close> array returns for the user's token.\<close>

definition attempt ::
  "(string \<rightharpoonup> string) \<Rightarrow> jsstring \<Rightarrow> llm_options \<Rightarrow>
   (string \<times> (string \<Rightarrow> jsstring \<Rightarrow> llm_options \<Rightarrow> string + jsstring)) \<Rightarrow> string + jsstring" where
  "attempt tokens prompt options p =
     (case tokens (fst p) of
        Some token \<Rightarrow> snd p token prompt options
      | None \<Rightarrow> Inl ''no token'')"

text \<open>The same for a provider given by its name.\<close>

definition provider_call ::
  "llm_net \<Rightarrow> (string \<rightharpoonup> string) \<Rightarrow> jsstring \<Rightarrow> llm_options \<Rightarrow> string \<Rightarrow> string + jsstring" where
  "provider_call net tokens prompt options name =
     (case map_of (providers net) name of
        Some method \<Rightarrow> attempt tokens prompt options (name, method)
      | None \<Rightarrow> Inl ''unknown provider'')"

text \<open>
  A user with active tokens for Groq and Hugging Face, where Groq's request fails and
  Hugging Face answers; the stored tokens are kept in the clear by the stand-in for
  \<open>decrypt\<close>.
\<close>

definition fallback_db :: ai_db where
  "fallback_db =
     \<lparr>ai_tokens =
        [\<lparr>tok_id = ''t1'', tok_user_id = ''u1'', tok_service = ''groq'', token_encrypted = ''gsk_token'',
          tok_is_active = Some 1, last_used = None\<rparr>,
         \<lparr>tok_id = ''t2'', tok_user_id = ''u1'', tok_service = ''huggingface'', token_encrypted = ''hf_token'',
          tok_is_active = Some 1, last_used = None\<rparr>,
         \<lparr>tok_id = ''t3'', tok_user_id = ''u1'', tok_service = ''together'', token_encrypted = ''tg_token'',
          tok_is_active = Some 0, last_used = None\<rparr>]\<rparr>"

definition fallback_net :: llm_net where
  "fallback_net service token prompt options =
     (if service = ''huggingface'' then Inr (ascii '' save more '') else Inl ''timeout'')"

definition clear_dec :: "string \<Rightarrow> string + string" where
  "clear_dec c = Inr c"

definition no_options :: llm_options where
  "no_options = \<lparr>opt_model = None, opt_systemPrompt = None, opt_maxTokens = None, opt_temperature = None\<rparr>"

section \<open>Insight extraction from model output\<close>

text \<open>
  \<open>String.prototype.split\<close> with a one-unit separator: the pieces between the
  separators, a single empty piece for the empty string.
\<close>

fun split_on :: "'a \<Rightarrow> 'a list \<Rightarrow> 'a list list" where
  "split_on sep [] = [[]]"
| "split_on sep (c # cs) =
     (if c = sep then [] # split_on sep cs
      else (case split_on sep cs of
              w # ws \<Rightarrow> (c # w) # ws
            | [] \<Rightarrow> [[c]]))"

text \<open>
  \<open>insightsText.match(/\[[\s\S]*\]/)\<close>: the match starts at the first \<open>[\<close> (code
  unit 91) and, the star being greedy, ends at the last \<open>]\<close> (93) after it; there is
  no match when no \<open>]\<close> follows the first \<open>[\<close>.
\<close>

definition match_bracketed :: "jsstring \<Rightarrow> jsstring option" where
  "match_bracketed s =
     (let from_open = dropWhile (\<lambda>c. c \<noteq> 91) s;
          to_close = rev (dropWhile (\<lambda>c. c \<noteq> 93) (rev from_open))
      in if to_close = [] then None else Some to_close)"

record insight =
  in_type :: jsstring
  in_title :: jsstring
  in_message :: jsstring
  in_recommendation :: jsstring
  in_impact :: jsstring

text \<open>\<open>/^[\d\*\-\<bullet>]/.test(line)\<close>: the line starts with a digit, \<open>*\<close>, \<open>-\<close> or a
  bullet (U+2022).\<close>

definition starts_item :: "jsstring \<Rightarrow> bool" where
  "starts_item line =
     (case line of
        [] \<Rightarrow> False
      | c # cs \<Rightarrow> (48 \<le> c \<and> c \<le> 57) \<or> c = 42 \<or> c = 45 \<or> c = 8226)"

text \<open>\<open>line.replace(/^[\d\*\-\<bullet>\.\)]\s*/, '')\<close>: one leading unit of the class and
  the white space after it are removed.\<close>

definition strip_marker :: "jsstring \<Rightarrow> jsstring" where
  "strip_marker line =
     (case line of
        [] \<Rightarrow> []
      | c # cs \<Rightarrow>
          if (48 \<le> c \<and> c \<le> 57) \<or> c = 42 \<or> c = 45 \<or> c = 8226 \<or> c = 46 \<or> c = 41
          then dropWhile is_space cs else line)"

definition new_insight :: "jsstring \<Rightarrow> insight" where
  "new_insight line =
     \<lparr>in_type = ascii ''info'',
      in_title = take 80 (strip_marker line),
      in_message = line,
      in_recommendation = [],
      in_impact = ascii ''medium''\<rparr>"

text \<open>The body of \<open>lines.forEach\<close>, on the pair of \<open>insights\<close> and
  \<open>currentInsight\<close>.\<close>

definition insight_step :: "jsstring \<Rightarrow> insight list \<times> insight option \<Rightarrow> insight list \<times> insight option" where
  "insight_step line st =
     (case st of (insights, currentInsight) \<Rightarrow>
        if starts_item line then
          (case currentInsight of
             Some cur \<Rightarrow> (insights @ [cur], Some (new_insight line))
           | None \<Rightarrow> (insights, Some (new_insight line)))
        else
          (case currentInsight of
             Some cur \<Rightarrow> (insights, Some (cur\<lparr>in_message := in_message cur @ ascii '' '' @ line\<rparr>))
           | None \<Rightarrow> (insights, None)))"

text \<open>The single insight \<open>parseNaturalLanguageInsights\<close> falls back to.\<close>

definition analysis_insight :: "jsstring \<Rightarrow> insight" where
  "analysis_insight text =
     \<lparr>in_type = ascii ''info'',
      in_title = ascii ''AI Analysis'',
      in_message = text,
      in_recommendation = ascii ''Review the analysis for financial guidance.'',
      in_impact = ascii ''medium''\<rparr>"

definition parseNaturalLanguageInsights :: "jsstring \<Rightarrow> insight list" where
  "parseNaturalLanguageInsights text =
     (let lines = filter (\<lambda>line. trim line \<noteq> []) (split_on 10 text);
          st = fold insight_step lines ([], None);
          insights = (case snd st of Some cur \<Rightarrow> fst st @ [cur] | None \<Rightarrow> fst st)
      in if length insights > 0 then insights else [analysis_insight text])"

text \<open>The single insight of the \<open>catch\<close> block of \<open>generateFinancialInsights\<close>.\<close>

definition raw_insight :: "jsstring \<Rightarrow> insight" where
  "raw_insight text =
     \<lparr>in_type = ascii ''info'',
      in_title = ascii ''AI Financial Analysis'',
      in_message = text,
      in_recommendation = ascii ''Review the analysis above for financial guidance.'',
      in_impact = ascii ''medium''\<rparr>"

text \<open>
  The \<open>insights\<close> field: the value \<open>JSON.parse\<close> returned, or a list of insight
  objects built by the service.
\<close>

datatype 'j insights = Parsed 'j | Built "insight list"

text \<open>
  The \<open>try\<close>/\<open>catch\<close> of \<open>generateFinancialInsights\<close> on the completion's text.
  \<open>parse\<close> is \<open>JSON.parse\<close>, \<open>None\<close> when it throws.
\<close>

definition insights_of_text :: "(jsstring \<Rightarrow> 'j option) \<Rightarrow> jsstring \<Rightarrow> 'j insights" where
  "insights_of_text parse insightsText =
     (case match_bracketed insightsText of
        Some jsonMatch \<Rightarrow>
          (case parse jsonMatch of
             Some insights \<Rightarrow> Parsed insights
           | None \<Rightarrow> Built [raw_insight insightsText])
      | None \<Rightarrow> Built (parseNaturalLanguageInsights insightsText))"

record 'j insights_response =
  ir_insights :: "'j insights"
  ir_provider :: string
  ir_generated_at :: string

definition insights_options :: llm_options where
  "insights_options =
     \<lparr>opt_model = None,
      opt_systemPrompt = Some (ascii (''You are an expert financial advisor. Analyze the provided financial data and generate 3-5 specific, actionable insights. Focus on spending patterns, savings opportunities, and financial health. Format your response as a JSON array of insight objects with fields: type (warning/success/info), title, message, recommendation, and impact (high/medium/low).'')),
      opt_maxTokens = Some 2000,
      opt_temperature = Some (3 / 10)\<rparr>"

text \<open>
  \<open>generateFinancialInsights\<close>, given the prompt built from the financial data: a
  failure of \<open>generateCompletion\<close> propagates; otherwise the text is turned into
  insights. \<open>iso_now\<close> is the clock's ISO string.
\<close>

definition generateFinancialInsights ::
  "(jsstring \<Rightarrow> 'j option) \<Rightarrow> llm_net \<Rightarrow> (string \<Rightarrow> string + string) \<Rightarrow> string \<Rightarrow> string \<Rightarrow> ai_db \<Rightarrow>
   string \<Rightarrow> jsstring \<Rightarrow> (string + 'j insights_response) \<times> ai_db" where
  "generateFinancialInsights parse net dec now iso_now db userId prompt =
     (let outcome = generateCompletion net dec now db userId prompt insights_options
      in case co_result outcome of
           Inl err \<Rightarrow> (Inl err, co_db outcome)
         | Inr result \<Rightarrow>
             (Inr \<lparr>ir_insights = insights_of_text parse (cp_text result),
                   ir_provider = cp_provider result,
                   ir_generated_at = iso_now\<rparr>,
              co_db outcome))"

text \<open>A stand-in for \<open>JSON.parse\<close> that accepts the empty array and the array of one
  number 1, for the examples.\<close>

definition tiny_parse :: "jsstring \<Rightarrow> nat list option" where
  "tiny_parse s = (if s = ascii ''[]'' then Some [] else if s = ascii ''[1]'' then Some [1] else None)"

section \<open>Token encryption\<close>

text \<open>
  Bytes are \<open>8 word\<close>s. The text to encrypt is a JavaScript string, a list of UTF-16
  code units below \<open>2\<^sup>1\<^sup>6\<close>; the encrypted token consists of hex digits and colons and
  is a plain \<open>string\<close>.
\<close>

text \<open>The surrogate code units.\<close>

definition is_high :: "nat \<Rightarrow> bool" where
  "is_high u = (0xD800 \<le> u \<and> u \<le> 0xDBFF)"

definition is_low :: "nat \<Rightarrow> bool" where
  "is_low u = (0xDC00 \<le> u \<and> u \<le> 0xDFFF)"

text \<open>
  The UTF-8 bytes of a string, as \<open>cipher.update(text, 'utf8', ..)\<close> writes them: one
  to three bytes for a code unit outside the surrogate range, four bytes for a high
  surrogate followed by a low one, and the bytes \<open>EF BF BD\<close> of U+FFFD for a surrogate
  that is not part of such a pair.
\<close>

fun utf8_bytes :: "nat list \<Rightarrow> nat list" where
  "utf8_bytes [] = []"
| "utf8_bytes (u # us) =
     (if u < 0x80 then u # utf8_bytes us
      else if u < 0x800 then (0xC0 + u div 64) # (0x80 + u mod 64) # utf8_bytes us
      else if is_high u then
        (case us of
           [] \<Rightarrow> [0xEF, 0xBF, 0xBD]
         | v # r \<Rightarrow>
             if is_low v then
               (let c = 0x10000 + (u - 0xD800) * 1024 + (v - 0xDC00)
                in (0xF0 + c div 262144) # (0x80 + (c div 4096) mod 64)
                     # (0x80 + (c div 64) mod 64) # (0x80 + c mod 64) # utf8_bytes r)
             else 0xEF # 0xBF # 0xBD # utf8_bytes us)
      else if is_low u then 0xEF # 0xBF # 0xBD # utf8_bytes us
      else (0xE0 + u div 4096) # (0x80 + (u div 64) mod 64) # (0x80 + u mod 64) # utf8_bytes us)"

text \<open>The code units of a decoded code point.\<close>

definition code_point_units :: "nat \<Rightarrow> nat list" where
  "code_point_units c =
     (if c < 0x10000 then [c]
      else [0xD800 + (c - 0x10000) div 1024, 0xDC00 + (c - 0x10000) mod 1024])"

definition continuation :: "nat \<Rightarrow> bool" where
  "continuation b = (0x80 \<le> b \<and> b \<le> 0xBF)"

text \<open>
  The string that \<open>decipher.update(.., 'utf8')\<close> and \<open>decipher.final('utf8')\<close> build
  from the bytes: the decoder accepts the shortest encoding of each code point outside
  the surrogate range and emits U+FFFD at a byte that cannot start or continue a
  sequence, resuming at that byte when it broke a sequence.
\<close>

fun utf8_units :: "nat list \<Rightarrow> nat list" where
  "utf8_units [] = []"
| "utf8_units (b # bs) =
     (if b < 0x80 then b # utf8_units bs
      else if 0xC2 \<le> b \<and> b \<le> 0xDF then
        (case bs of
           [] \<Rightarrow> [0xFFFD]
         | c1 # r1 \<Rightarrow>
             if continuation c1 then ((b mod 32) * 64 + c1 mod 64) # utf8_units r1
             else 0xFFFD # utf8_units bs)
      else if 0xE0 \<le> b \<and> b \<le> 0xEF then
        (case bs of
           [] \<Rightarrow> [0xFFFD]
         | c1 # r1 \<Rightarrow>
             if (if b = 0xE0 then 0xA0 else 0x80) \<le> c1 \<and> c1 \<le> (if b = 0xED then 0x9F else 0xBF) then
               (case r1 of
                  [] \<Rightarrow> [0xFFFD]
                | c2 # r2 \<Rightarrow>
                    if continuation c2
                    then ((b mod 16) * 4096 + (c1 mod 64) * 64 + c2 mod 64) # utf8_units r2
                    else 0xFFFD # utf8_units r1)
             else 0xFFFD # utf8_units bs)
      else if 0xF0 \<le> b \<and> b \<le> 0xF4 then
        (case bs of
           [] \<Rightarrow> [0xFFFD]
         | c1 # r1 \<Rightarrow>
             if (if b = 0xF0 then 0x90 else 0x80) \<le> c1 \<and> c1 \<le> (if b = 0xF4 then 0x8F else 0xBF) then
               (case r1 of
                  [] \<Rightarrow> [0xFFFD]
                | c2 # r2 \<Rightarrow>
                    if continuation c2 then
                      (case r2 of
                         [] \<Rightarrow> [0xFFFD]
                       | c3 # r3 \<Rightarrow>
                           if continuation c3
                           then code_point_units ((b mod 8) * 262144 + (c1 mod 64) * 4096
                                   + (c2 mod 64) * 64 + c3 mod 64) @ utf8_units r3
                           else 0xFFFD # utf8_units r2)
                    else 0xFFFD # utf8_units r1)
             else 0xFFFD # utf8_units bs)
      else 0xFFFD # utf8_units bs)"

text \<open>
  \<open>String.prototype.toWellFormed\<close> and \<open>isWellFormed\<close>: the string with every
  surrogate outside a pair replaced by U+FFFD, and whether there is none.
\<close>

fun toWellFormed :: "nat list \<Rightarrow> nat list" where
  "toWellFormed [] = []"
| "toWellFormed (u # us) =
     (if is_high u then
        (case us of
           [] \<Rightarrow> [0xFFFD]
         | v # r \<Rightarrow> if is_low v then u # v # toWellFormed r else 0xFFFD # toWellFormed us)
      else if is_low u then 0xFFFD # toWellFormed us
      else u # toWellFormed us)"

fun isWellFormed :: "nat list \<Rightarrow> bool" where
  "isWellFormed [] = True"
| "isWellFormed (u # us) =
     (if is_high u then
        (case us of [] \<Rightarrow> False | v # r \<Rightarrow> is_low v \<and> isWellFormed r)
      else \<not> is_low u \<and> isWellFormed us)"

definition utf8_encode :: "jsstring \<Rightarrow> 8 word list" where
  "utf8_encode s = map of_nat (utf8_bytes s)"

definition utf8_decode :: "8 word list \<Rightarrow> jsstring" where
  "utf8_decode bs = utf8_units (map unat bs)"

definition hex_digit :: "nat \<Rightarrow> char" where
  "hex_digit n = (if n < 10 then char_of (48 + n) else char_of (87 + n))"

text \<open>\<open>buffer.toString('hex')\<close>: two lower-case digits for each byte.\<close>

definition toHex :: "8 word list \<Rightarrow> string" where
  "toHex bs = concat (map (\<lambda>b. [hex_digit (unat b div 16), hex_digit (unat b mod 16)]) bs)"

definition hex_val :: "char \<Rightarrow> nat option" where
  "hex_val c =
     (let k = (of_char c :: nat)
      in if 48 \<le> k \<and> k \<le> 57 then Some (k - 48)
         else if 97 \<le> k \<and> k \<le> 102 then Some (k - 87)
         else if 65 \<le> k \<and> k \<le> 70 then Some (k - 55)
         else None)"

text \<open>\<open>Buffer.from(s, 'hex')\<close>: pairs of hex digits, up to the first pair that is not
  one.\<close>

fun fromHex :: "string \<Rightarrow> 8 word list" where
  "fromHex (a # b # rest) =
     (case (hex_val a, hex_val b) of
        (Some h, Some l) \<Rightarrow> of_nat (16 * h + l) # fromHex rest
      | _ \<Rightarrow> [])"
| "fromHex _ = []"

text \<open>
  The cipher of the \<open>crypto\<close> module under the server's key (AES-256-GCM), which is not
  part of the repository: \<open>cipher iv plaintext\<close> is the ciphertext and the
  authentication tag, or \<open>None\<close> when the module throws; \<open>decipher iv ciphertext tag\<close>
  is the plaintext, or \<open>None\<close> when it throws.
\<close>

type_synonym gcm_cipher = "8 word list \<Rightarrow> 8 word list \<Rightarrow> (8 word list \<times> 8 word list) option"

type_synonym gcm_decipher = "8 word list \<Rightarrow> 8 word list \<Rightarrow> 8 word list \<Rightarrow> 8 word list option"

text \<open>
  \<open>encrypt(text)\<close>; \<open>None\<close> is \<open>null\<close> or \<open>undefined\<close>, \<open>iv\<close> the 16 random bytes
  drawn by the call.
\<close>

definition encrypt :: "gcm_cipher \<Rightarrow> 8 word list \<Rightarrow> jsstring option \<Rightarrow> string + string" where
  "encrypt cipher iv text =
     (case text of
        None \<Rightarrow> Inl ''Text to encrypt cannot be empty''
      | Some t \<Rightarrow>
          if t = [] then Inl ''Text to encrypt cannot be empty''
          else
            (case cipher iv (utf8_encode t) of
               None \<Rightarrow> Inl ''Failed to encrypt data''
             | Some (encrypted, authTag) \<Rightarrow>
                 Inr (toHex iv @ '':'' @ toHex encrypted @ '':'' @ toHex authTag)))"

text \<open>\<open>decrypt(encryptedData)\<close>; the format error is thrown inside the \<open>try\<close> and
  rethrown by its \<open>catch\<close>.\<close>

definition decrypt :: "gcm_decipher \<Rightarrow> string \<Rightarrow> string + jsstring" where
  "decrypt decipher encryptedData =
     (if encryptedData = [] then Inl ''Encrypted data cannot be empty''
      else
        (case split_on (CHR '':'') encryptedData of
           [p0, p1, p2] \<Rightarrow>
             (case decipher (fromHex p0) (fromHex p1) (fromHex p2) of
                None \<Rightarrow> Inl ''Failed to decrypt data''
              | Some decrypted \<Rightarrow> Inr (utf8_decode decrypted))
         | _ \<Rightarrow> Inl ''Failed to decrypt data''))"

text \<open>\<open>validateEncryptionSetup\<close>; \<open>stamp\<close> is the decimal \<open>Date.now()\<close>.\<close>

definition validateEncryptionSetup :: "gcm_cipher \<Rightarrow> gcm_decipher \<Rightarrow> 8 word list \<Rightarrow> string \<Rightarrow> bool" where
  "validateEncryptionSetup cipher decipher iv stamp =
     (let testData = ascii (''test-encryption-'' @ stamp)
      in case encrypt cipher iv (Some testData) of
           Inl e \<Rightarrow> False
         | Inr encrypted \<Rightarrow>
             (case decrypt decipher encrypted of
                Inl e \<Rightarrow> False
              | Inr decrypted \<Rightarrow> decrypted = testData))"

text \<open>A stand-in cipher for the examples: it masks every byte with \<open>0x5a\<close> and uses
  the nonce as the tag.\<close>

definition toy_cipher :: gcm_cipher where
  "toy_cipher iv plain = Some (map (\<lambda>b. b XOR 0x5a) plain, iv)"

definition toy_decipher :: gcm_decipher where
  "toy_decipher iv enc tag = (if tag = iv then Some (map (\<lambda>b. b XOR 0x5a) enc) else None)"

definition example_iv :: "8 word list" where
  "example_iv = [0x00, 0x11, 0x22, 0x33, 0x44, 0x55, 0x66, 0x77, 0x88, 0x99, 0xaa, 0xbb, 0xcc, 0xdd, 0xee, 0xff]"

section \<open>Properties\<close>

lemma sql_sum_or0: "or0 (sql_sum xs) = sum_list xs"
  by (simp add: or0_def sql_sum_def)

lemma sql_sum_coalesce0: "coalesce0 (sql_sum xs) = sum_list xs"
  by (simp add: coalesce0_def sql_sum_def)

lemma get_networth_net_worth:
  "net_worth (get_networth db u) =
     (sum_list (map acc_balance (filter (\<lambda>a. acc_user_id a = u \<and> acc_type a \<in> set asset_types) (accounts db)))
      + sum_list (map ret_balance (filter (\<lambda>r. ret_user_id r = u) (retirement_accounts db)))
      + sum_list (map ast_value (filter (\<lambda>a. ast_user_id a = u) (assets db))))
     - sum_list (map (\<lambda>a. \<bar>acc_balance a\<bar>)
         (filter (\<lambda>a. acc_user_id a = u \<and> acc_type a \<in> set liability_types) (accounts db)))"
  by (simp add: get_networth_def Let_def assetsQuery_def liabilitiesQuery_def
      assetsQuery_rows_def sql_sum_or0)

text \<open>
  C1. Every copy of the conversion (income summary, scheduler, insights, chat and
  opportunities routes, and the test script) maps weekly to amount*52/12, biweekly to amount*26/12, monthly
  and variable to the amount, quarterly to amount/3, annually to amount/12, and every
  other frequency to 0.
\<close>

theorem frequency_conversion_table:
  "calculateMonthlyIncome a ''weekly'' = a * 52 / 12 \<and>
   calculateMonthlyIncome a ''biweekly'' = a * 26 / 12 \<and>
   calculateMonthlyIncome a ''monthly'' = a \<and>
   calculateMonthlyIncome a ''quarterly'' = a / 3 \<and>
   calculateMonthlyIncome a ''annually'' = a / 12 \<and>
   calculateMonthlyIncome a ''variable'' = a \<and>
   (f \<notin> set frequencies \<longrightarrow> calculateMonthlyIncome a f = 0) \<and>
   AIScheduler_calculateMonthlyIncome a f = calculateMonthlyIncome a f \<and>
   insights_calculateMonthlyIncome a f = calculateMonthlyIncome a f \<and>
   chat_calculateMonthly a f = calculateMonthlyIncome a f \<and>
   opportunities_calculateMonthlyIncome a f = calculateMonthlyIncome a f \<and>
   test_api_calculateMonthly a f = calculateMonthlyIncome a f"
  by (simp add: calculateMonthlyIncome_def AIScheduler_calculateMonthlyIncome_def
      insights_calculateMonthlyIncome_def chat_calculateMonthly_def
      opportunities_calculateMonthlyIncome_def test_api_calculateMonthly_def frequencies_def)

theorem frequency_conversion_table_witness:
  "''daily'' \<notin> set frequencies \<and> calculateMonthlyIncome 1200 ''daily'' = 0 \<and>
   calculateMonthlyIncome 1200 ''weekly'' = 5200 \<and>
   AIScheduler_calculateMonthlyIncome 1200 ''daily'' = 0"
  using frequency_conversion_table [of 1200 "''daily''"]
  by (simp add: frequencies_def)

text \<open>
  C2. The net worth returned by \<open>GET /networth\<close> is the sum of the user's checking and
  savings balances, retirement balances and asset values, minus the sum of the absolute
  balances of the user's credit-card, loan, mortgage and other-debt accounts; the
  scheduler's query gives the same number; the spec's example gives 2500; and the result
  is a function of the current account, retirement and asset rows only, whatever the
  table of saved snapshots holds.
\<close>

theorem networth_formula:
  "net_worth (get_networth db u) =
     (sum_list (map acc_balance (filter (\<lambda>a. acc_user_id a = u \<and> acc_type a \<in> {''checking'', ''savings''}) (accounts db)))
      + sum_list (map ret_balance (filter (\<lambda>r. ret_user_id r = u) (retirement_accounts db)))
      + sum_list (map ast_value (filter (\<lambda>a. ast_user_id a = u) (assets db))))
     - sum_list (map (\<lambda>a. \<bar>acc_balance a\<bar>)
         (filter (\<lambda>a. acc_user_id a = u \<and> acc_type a \<in> {''credit_card'', ''loan'', ''mortgage'', ''other_debt''}) (accounts db)))
   \<and> getFinancialData_net_worth db u = net_worth (get_networth db u)
   \<and> net_worth (get_networth example_wealth_db ''u1'') = 2500
   \<and> get_networth (db\<lparr>net_worth_snapshots := snaps\<rparr>) u = get_networth db u"
proof -
  have set_a: "set asset_types = {''checking'', ''savings''}"
    by (simp add: asset_types_def)
  have set_l: "set liability_types = {''credit_card'', ''loan'', ''mortgage'', ''other_debt''}"
    by (simp add: liability_types_def)
  have sched: "getFinancialData_net_worth db u = net_worth (get_networth db u)"
    unfolding get_networth_net_worth
    by (simp add: getFinancialData_net_worth_def sql_sum_coalesce0 or0_def)
  have ex: "net_worth (get_networth example_wealth_db ''u1'') = 2500"
    unfolding get_networth_net_worth
    by (simp add: example_wealth_db_def example_accounts_def asset_types_def liability_types_def)
  have snaps: "get_networth (db\<lparr>net_worth_snapshots := snaps\<rparr>) u = get_networth db u"
    by (simp add: get_networth_def assetsQuery_def liabilitiesQuery_def assetsQuery_rows_def)
  from get_networth_net_worth [of db u] sched ex snaps show ?thesis
    unfolding set_a set_l by simp
qed

lemma ilog2_bounds:
  assumes "0 < x"
  shows "2 powi (ilog2 x) \<le> x" and "x < 2 powi (ilog2 x + 1)"
proof -
  obtain p q where pq: "quotient_of x = (p, q)" by (cases "quotient_of x")
  then have q: "0 < q" by (rule quotient_of_denom_pos)
  from pq have x: "x = of_int p / of_int q" by (rule quotient_of_div)
  from assms x q have p: "0 < p" by (simp add: zero_less_divide_iff)
  let ?d = "bitlen p - bitlen q"
  have bl: "0 \<le> bitlen k - 1" if "0 < k" for k
    using that by (simp add: bitlen_alt_def)
  have up: "(of_int k :: rat) < 2 powi (bitlen k)" and lo: "(2::rat) powi (bitlen k - 1) \<le> of_int k"
    if k: "0 < k" for k
  proof -
    from bitlen_bounds [OF k] have a: "2 ^ nat (bitlen k - 1) \<le> k" and b: "k < 2 ^ nat (bitlen k)"
      by simp_all
    from b have "(of_int k :: rat) < of_int (2 ^ nat (bitlen k))" by (simp only: of_int_less_iff)
    then show "(of_int k :: rat) < 2 powi (bitlen k)"
      using bl [OF k] by (simp add: power_int_def)
    from a have "(of_int (2 ^ nat (bitlen k - 1)) :: rat) \<le> of_int k" by (simp only: of_int_le_iff)
    then show "(2::rat) powi (bitlen k - 1) \<le> of_int k"
      using bl [OF k] by (simp add: power_int_def)
  qed
  have qpos: "(0::rat) < of_int q" using q by simp
  have xq: "x * of_int q = of_int p" using x q by simp
  have upper: "x < 2 powi (?d + 1)"
  proof -
    have "x * 2 powi (bitlen q - 1) \<le> x * of_int q"
      using lo [OF q] assms by (simp add: mult_left_mono)
    also have "\<dots> < 2 powi (bitlen p)" using up [OF p] by (simp add: xq)
    finally have "x < 2 powi (bitlen p) / 2 powi (bitlen q - 1)"
      by (simp add: pos_less_divide_eq)
    also have "\<dots> = 2 powi (?d + 1)"
      by (simp add: power_int_diff [symmetric] algebra_simps)
    finally show ?thesis .
  qed
  have lower: "2 powi (?d - 1) < x"
  proof -
    have "2 powi (bitlen p - 1) \<le> x * of_int q" using lo [OF p] by (simp add: xq)
    also have "\<dots> < x * 2 powi (bitlen q)"
      using up [OF q] assms by (simp add: mult_strict_left_mono)
    finally have "2 powi (bitlen p - 1) / 2 powi (bitlen q) < x"
      by (simp add: pos_divide_less_eq)
    also have "2 powi (bitlen p - 1) / 2 powi (bitlen q) = (2::rat) powi (?d - 1)"
      by (simp add: power_int_diff [symmetric] algebra_simps)
    finally show ?thesis .
  qed
  show "2 powi (ilog2 x) \<le> x"
    using lower by (auto simp: ilog2_def pq Let_def)
  show "x < 2 powi (ilog2 x + 1)"
    using upper by (auto simp: ilog2_def pq Let_def not_le)
qed

lemma ilog2_mono:
  assumes "0 < x" and "x \<le> y"
  shows "ilog2 x \<le> ilog2 y"
proof (rule ccontr)
  assume "\<not> ilog2 x \<le> ilog2 y"
  then have "ilog2 y + 1 \<le> ilog2 x" by simp
  then have "(2::rat) powi (ilog2 y + 1) \<le> 2 powi (ilog2 x)"
    by (intro power_int_increasing) simp_all
  also have "\<dots> \<le> x" using assms(1) by (rule ilog2_bounds)
  also note assms(2)
  finally have "2 powi (ilog2 y + 1) \<le> y" .
  moreover from assms have "y < 2 powi (ilog2 y + 1)" by (intro ilog2_bounds) simp
  ultimately show False by simp
qed

lemma round_half_even_bounds:
  "of_int (round_half_even m) \<le> m + 1 / 2" and "m - 1 / 2 \<le> of_int (round_half_even m)"
  by (auto simp: round_half_even_def Let_def) linarith+

lemma round_half_even_of_int: "round_half_even (of_int k) = k"
  by (simp add: round_half_even_def)

lemma round_half_even_mono:
  assumes "a \<le> b"
  shows "round_half_even a \<le> round_half_even b"
proof (cases "\<lfloor>a\<rfloor> = \<lfloor>b\<rfloor>")
  case True
  with assms have "a - of_int \<lfloor>b\<rfloor> \<le> b - of_int \<lfloor>b\<rfloor>" by simp
  with True show ?thesis
    by (auto simp: round_half_even_def Let_def)
next
  case False
  with assms have lt: "\<lfloor>a\<rfloor> < \<lfloor>b\<rfloor>" using floor_mono [OF assms] by simp
  have "round_half_even a \<le> \<lfloor>a\<rfloor> + 1" by (auto simp: round_half_even_def Let_def)
  also from lt have "\<dots> \<le> \<lfloor>b\<rfloor>" by simp
  also have "\<dots> \<le> round_half_even b" by (auto simp: round_half_even_def Let_def)
  finally show ?thesis .
qed

lemma round_half_even_le: "m \<le> of_int k \<Longrightarrow> round_half_even m \<le> k"
  using round_half_even_mono [of m "of_int k"] by (simp add: round_half_even_of_int)

lemma round_half_even_ge: "of_int k \<le> m \<Longrightarrow> k \<le> round_half_even m"
  using round_half_even_mono [of "of_int k" m] by (simp add: round_half_even_of_int)

lemma scale53: "(2::rat) powi 53 * 2 powi (k - 52) = 2 powi (k + 1)"
proof -
  have "(2::rat) powi 53 * 2 powi (k - 52) = 2 powi (53 + (k - 52))"
    by (rule power_int_add [symmetric]) simp
  also have "53 + (k - 52) = k + 1" by simp
  finally show ?thesis .
qed

lemma scale52: "(2::rat) powi 52 * 2 powi (k - 52) = 2 powi k"
proof -
  have "(2::rat) powi 52 * 2 powi (k - 52) = 2 powi (52 + (k - 52))"
    by (rule power_int_add [symmetric]) simp
  also have "52 + (k - 52) = k" by simp
  finally show ?thesis .
qed

lemma nearest_double_mono:
  assumes "0 < x" and "x \<le> y"
  shows "nearest_double x \<le> nearest_double y"
proof -
  from assms have y: "0 < y" by simp
  let ?ex = "max (ilog2 x) (- 1022)" and ?ey = "max (ilog2 y) (- 1022)"
  have nx: "nearest_double x = of_int (round_half_even (x / 2 powi (?ex - 52))) * 2 powi (?ex - 52)"
    using assms(1) by (simp add: nearest_double_def Let_def)
  have ny: "nearest_double y = of_int (round_half_even (y / 2 powi (?ey - 52))) * 2 powi (?ey - 52)"
    using y by (simp add: nearest_double_def Let_def)
  have le: "?ex \<le> ?ey" using ilog2_mono [OF assms] by simp
  show ?thesis
  proof (cases "?ex = ?ey")
    case True
    have "x / 2 powi (?ey - 52) \<le> y / 2 powi (?ey - 52)"
      using assms(2) by (simp add: divide_right_mono)
    then have "round_half_even (x / 2 powi (?ey - 52)) \<le> round_half_even (y / 2 powi (?ey - 52))"
      by (rule round_half_even_mono)
    then have "(of_int (round_half_even (x / 2 powi (?ey - 52))) :: rat)
        \<le> of_int (round_half_even (y / 2 powi (?ey - 52)))" by simp
    then show ?thesis unfolding nx ny True
      by (simp add: mult_right_mono)
  next
    case False
    from le False have lt: "?ex < ?ey" by (rule le_neq_trans)
    then have eyy: "?ey = ilog2 y" by (simp add: max_def split: if_splits)
    have "x < 2 powi (ilog2 x + 1)" using assms(1) by (rule ilog2_bounds)
    also have "\<dots> \<le> 2 powi (?ex + 1)" by (intro power_int_increasing) simp_all
    finally have "x / 2 powi (?ex - 52) \<le> 2 powi (?ex + 1) / 2 powi (?ex - 52)"
      by (simp add: divide_right_mono)
    also have "\<dots> = (2::rat) powi 53" by (simp add: power_int_diff [symmetric])
    also have "\<dots> = of_int (2 ^ 53)" by simp
    finally have "round_half_even (x / 2 powi (?ex - 52)) \<le> 2 ^ 53" by (rule round_half_even_le)
    then have "(of_int (round_half_even (x / 2 powi (?ex - 52))) :: rat) \<le> of_int (2 ^ 53)"
      by (simp only: of_int_le_iff)
    then have "nearest_double x \<le> of_int (2 ^ 53) * 2 powi (?ex - 52)"
      unfolding nx by (simp add: mult_right_mono)
    also have "\<dots> = 2 powi 53 * 2 powi (?ex - 52)" by simp
    also have "\<dots> = 2 powi (?ex + 1)" by (rule scale53)
    also have "\<dots> \<le> 2 powi ?ey"
    proof (rule power_int_increasing)
      from lt show "?ex + 1 \<le> ?ey" by linarith
    qed simp
    finally have a: "nearest_double x \<le> 2 powi ?ey" .
    have "2 powi ?ey \<le> y" unfolding eyy using y by (rule ilog2_bounds)
    then have "2 powi ?ey / 2 powi (?ey - 52) \<le> y / 2 powi (?ey - 52)"
      by (simp add: divide_right_mono)
    moreover have "2 powi ?ey / 2 powi (?ey - 52) = (2::rat) powi 52"
      by (simp add: power_int_diff [symmetric])
    moreover have "(2::rat) powi 52 = of_int (2 ^ 52)" by simp
    ultimately have "of_int (2 ^ 52) \<le> y / 2 powi (?ey - 52)" by simp
    then have "2 ^ 52 \<le> round_half_even (y / 2 powi (?ey - 52))" by (rule round_half_even_ge)
    then have "(of_int (2 ^ 52) :: rat) \<le> of_int (round_half_even (y / 2 powi (?ey - 52)))"
      by (simp only: of_int_le_iff)
    then have "of_int (2 ^ 52) * 2 powi (?ey - 52) \<le> nearest_double y"
      unfolding ny by (simp add: mult_right_mono)
    moreover have "of_int (2 ^ 52) * 2 powi (?ey - 52) = (2::rat) powi ?ey"
    proof -
      have "of_int (2 ^ 52) * 2 powi (?ey - 52) = (2::rat) powi 52 * 2 powi (?ey - 52)" by simp
      also have "\<dots> = 2 powi ?ey" by (rule scale52)
      finally show ?thesis .
    qed
    ultimately have b: "2 powi ?ey \<le> nearest_double y" by simp
    from a b show ?thesis by simp
  qed
qed

lemma nearest_double_nonneg: "0 \<le> x \<Longrightarrow> 0 \<le> nearest_double x"
proof -
  assume x: "0 \<le> x"
  let ?u = "2 powi (max (ilog2 \<bar>x\<bar>) (- 1022) - 52) :: rat"
  have u: "0 < ?u" by simp
  with x have "of_int 0 \<le> x / ?u" by simp
  then have "0 \<le> round_half_even (x / ?u)" by (rule round_half_even_ge)
  with u show ?thesis by (simp add: nearest_double_def Let_def)
qed

lemma nearest_double_nonpos: "x \<le> 0 \<Longrightarrow> nearest_double x \<le> 0"
proof -
  assume x: "x \<le> 0"
  let ?u = "2 powi (max (ilog2 \<bar>x\<bar>) (- 1022) - 52) :: rat"
  have u: "0 < ?u" by simp
  with x have "x / ?u \<le> of_int 0" by (simp add: divide_nonpos_pos)
  then have "round_half_even (x / ?u) \<le> 0" by (rule round_half_even_le)
  with u show ?thesis by (simp add: nearest_double_def Let_def mult_le_0_iff)
qed

lemma to_double_mono:
  assumes "0 \<le> x" and "x \<le> y"
  shows "\<not> d_less (to_double y) (to_double x)"
proof (cases "x = 0")
  case True
  with assms nearest_double_nonneg [of y] show ?thesis
    by (auto simp: to_double_def Let_def)
next
  case False
  with assms have x: "0 < x" and y: "0 < y" by simp_all
  from nearest_double_mono [OF x assms(2)] nearest_double_nonneg [of x] nearest_double_nonneg [of y]
    x y
  show ?thesis by (auto simp: to_double_def Let_def)
qed

lemma to_double_nonpos: "x \<le> 0 \<Longrightarrow> \<not> d_less (Fin 0) (to_double x)"
  using nearest_double_nonpos [of x] by (auto simp: to_double_def Let_def)

lemma to_double_nonneg_cases:
  assumes "0 \<le> x"
  obtains r where "to_double x = Fin r" and "0 \<le> r" | "to_double x = PosInfinity"
proof (cases "x = 0")
  case True
  then have "to_double x = Fin 0" by (simp add: to_double_def)
  then show ?thesis by (rule that(1)) simp
next
  case False
  with assms have x: "0 < x" by simp
  from assms have r: "0 \<le> nearest_double x" by (rule nearest_double_nonneg)
  show ?thesis
  proof (cases "overflow_threshold \<le> \<bar>nearest_double x\<bar>")
    case True
    with False x have "to_double x = PosInfinity" by (simp add: to_double_def Let_def)
    then show ?thesis by (rule that(2))
  next
    case over: False
    with False have "to_double x = Fin (nearest_double x)" by (simp add: to_double_def Let_def)
    then show ?thesis using r by (rule that(1))
  qed
qed

lemma to_double_nonpos_cases:
  assumes "x \<le> 0"
  obtains r where "to_double x = Fin r" and "r \<le> 0" | "to_double x = NegInfinity"
proof (cases "x = 0")
  case True
  then have "to_double x = Fin 0" by (simp add: to_double_def)
  then show ?thesis by (rule that(1)) simp
next
  case False
  with assms have x: "\<not> 0 < x" by simp
  from assms have r: "nearest_double x \<le> 0" by (rule nearest_double_nonpos)
  show ?thesis
  proof (cases "overflow_threshold \<le> \<bar>nearest_double x\<bar>")
    case True
    with False x have "to_double x = NegInfinity" by (simp add: to_double_def Let_def)
    then show ?thesis by (rule that(2))
  next
    case over: False
    with False have "to_double x = Fin (nearest_double x)" by (simp add: to_double_def Let_def)
    then show ?thesis using r by (rule that(1))
  qed
qed

lemma double_three_tenths: "to_double (3 / 10) = Fin (5404319552844595 / 18014398509481984)"
  by code_simp

lemma double_thirty: "to_double (5404319552844595 / 18014398509481984 * 100) = Fin 30"
  by code_simp

lemma double_above_three_tenths:
  "to_double (1351079888211149 / 4503599627370496) = Fin (1351079888211149 / 4503599627370496)"
  by code_simp

lemma double_above_thirty:
  "to_double (1351079888211149 / 4503599627370496 * 100) = Fin (8444249301319681 / 281474976710656)"
  by code_simp

lemma lit_0_20_value: "lit_0_20 = Fin (3602879701896397 / 18014398509481984)"
  by code_simp

lemma lit_0_15_value: "lit_0_15 = Fin (5404319552844595 / 36028797018963968)"
  by code_simp

lemma percentage_not_above:
  assumes I: "0 < I" and t: "t \<le> (30 / 100) * I"
  shows "\<not> d_less (Fin 30) (percentage_of (Fin t) (Fin I))"
proof (cases "t \<le> 0")
  case True
  with I have "t / I \<le> 0" by (simp add: divide_nonpos_pos)
  then show ?thesis
  proof (cases rule: to_double_nonpos_cases)
    case (1 r)
    from 1(2) have "r * 100 \<le> 0" by simp
    then show ?thesis
    proof (cases rule: to_double_nonpos_cases)
      case (1 r')
      with \<open>to_double (t / I) = Fin r\<close> I show ?thesis by (simp add: percentage_of_def)
    next
      case 2
      with \<open>to_double (t / I) = Fin r\<close> I show ?thesis by (simp add: percentage_of_def)
    qed
  next
    case 2
    with I show ?thesis by (simp add: percentage_of_def)
  qed
next
  case False
  with I t have q: "0 \<le> t / I" "t / I \<le> 3 / 10" by (simp_all add: field_simps)
  from to_double_mono [OF q] have le: "\<not> d_less (Fin (5404319552844595 / 18014398509481984)) (to_double (t / I))"
    unfolding double_three_tenths .
  from q(1) show ?thesis
  proof (cases rule: to_double_nonneg_cases)
    case (1 r)
    with le have r: "r \<le> 5404319552844595 / 18014398509481984" by simp
    from 1(2) r have "0 \<le> r * 100" "r * 100 \<le> 5404319552844595 / 18014398509481984 * 100"
      by simp_all
    from to_double_mono [OF this] have "\<not> d_less (Fin 30) (to_double (r * 100))"
      unfolding double_thirty .
    with 1(1) I show ?thesis by (simp add: percentage_of_def)
  next
    case 2
    with le show ?thesis by simp
  qed
qed

lemma percentage_above:
  assumes I: "0 < I" and t: "(1351079888211149 / 4503599627370496) * I \<le> t"
  shows "d_less (Fin 30) (percentage_of (Fin t) (Fin I))"
proof -
  from I t have q: "0 \<le> (1351079888211149 / 4503599627370496 :: rat)"
    "1351079888211149 / 4503599627370496 \<le> t / I"
    by (simp_all add: field_simps)
  from to_double_mono [OF q]
  have ge: "\<not> d_less (to_double (t / I)) (Fin (1351079888211149 / 4503599627370496))"
    unfolding double_above_three_tenths .
  from q have "0 \<le> t / I" by (rule order_trans)
  then show ?thesis
  proof (cases rule: to_double_nonneg_cases)
    case (1 r)
    with ge have r: "1351079888211149 / 4503599627370496 \<le> r" by simp
    then have "0 \<le> (1351079888211149 / 4503599627370496 * 100 :: rat)"
      "1351079888211149 / 4503599627370496 * 100 \<le> r * 100" by simp_all
    from to_double_mono [OF this]
    have ge': "\<not> d_less (to_double (r * 100)) (Fin (8444249301319681 / 281474976710656))"
      unfolding double_above_thirty .
    from 1(2) have "0 \<le> r * 100" by simp
    then have "d_less (Fin 30) (to_double (r * 100))"
    proof (cases rule: to_double_nonneg_cases)
      case (1 r')
      with ge' show ?thesis by simp
    next
      case 2
      then show ?thesis by simp
    qed
    with 1(1) I show ?thesis by (simp add: percentage_of_def)
  next
    case 2
    with I show ?thesis by (simp add: percentage_of_def)
  qed
qed

lemma savings_not_below:
  assumes i: "0 \<le> i" and le: "i * (3602879701896397 / 18014398509481984) \<le> i - x"
  shows "\<not> d_less (d_sub (Fin i) (Fin x)) (d_mul (Fin i) lit_0_20)"
proof -
  from i have "0 \<le> i * (3602879701896397 / 18014398509481984)" by simp
  from to_double_mono [OF this le]
  have m: "\<not> d_less (to_double (i - x)) (to_double (i * (3602879701896397 / 18014398509481984)))" .
  have a: "d_sub (Fin i) (Fin x) = to_double (i - x)"
    by (simp add: d_sub_def d_neg_def)
  have b: "d_mul (Fin i) lit_0_20 = to_double (i * (3602879701896397 / 18014398509481984))"
    unfolding lit_0_20_value by (rule d_mul.simps)
  from m show ?thesis unfolding a b .
qed

lemma rule1_mem:
  "s \<in> set (rule1 I es) \<Longrightarrow>
     \<exists>e \<in> set es. d_less (Fin 0) I \<and> d_less (Fin 30) (percentage_of (total e) I) \<and>
       sg_category s = category e"
  by (auto simp: rule1_def Let_def split: if_splits)

lemma rule1_intro:
  "d_less (Fin 0) I \<Longrightarrow> e \<in> set es \<Longrightarrow> d_less (Fin 30) (percentage_of (total e) I) \<Longrightarrow>
     \<exists>s \<in> set (rule1 I es). sg_type s = ''high_spending'' \<and> sg_category s = category e \<and>
       potential_savings s = d_mul (total e) lit_0_15"
  by (force simp: rule1_def Let_def)

lemma rule1_type: "s \<in> set (rule1 I es) \<Longrightarrow> sg_type s = ''high_spending''"
  by (auto simp: rule1_def Let_def split: if_splits)

lemma rule2_type: "s \<in> set (rule2 es) \<Longrightarrow> sg_type s = ''subscription_check''"
  by (auto simp: rule2_def split: if_splits)

lemma rule3_type: "s \<in> set (rule3 I E) \<Longrightarrow> sg_type s = ''savings_goal''"
  by (auto simp: rule3_def Let_def split: if_splits)

lemma rule3_savings:
  "s \<in> set (rule3 I E) \<Longrightarrow>
     potential_savings s = d_sub (d_mul I lit_0_20) (d_sub I E)"
  by (auto simp: rule3_def Let_def split: if_splits)

lemma rule3_nonempty:
  "rule3 I E \<noteq> [] \<longleftrightarrow> d_less (d_sub I E) (d_mul I lit_0_20)"
  by (simp add: rule3_def Let_def)

lemma an_suggestions_analysis:
  "an_suggestions (analysis es inc) =
     rule1 (or_zero inc) es @ rule2 es @ rule3 (or_zero inc) (foldl d_add (Fin 0) (map total es))"
  by (simp add: analysis_def Let_def)

lemma distinct_category:
  "distinct (map category es) \<Longrightarrow> e \<in> set es \<Longrightarrow> e' \<in> set es \<Longrightarrow>
     category e' = category e \<Longrightarrow> e' = e"
  by (auto simp: distinct_map dest: inj_onD)

lemma high_spending_iff:
  assumes d: "distinct (map category es)" and e: "e \<in> set es"
  shows "(\<exists>s \<in> set (an_suggestions (analysis es inc)).
            sg_type s = ''high_spending'' \<and> sg_category s = category e)
         \<longleftrightarrow> d_less (Fin 0) (or_zero inc) \<and> d_less (Fin 30) (percentage_of (total e) (or_zero inc))"
proof
  assume "\<exists>s \<in> set (an_suggestions (analysis es inc)).
            sg_type s = ''high_spending'' \<and> sg_category s = category e"
  then obtain s where s: "s \<in> set (an_suggestions (analysis es inc))"
    and ty: "sg_type s = ''high_spending''" and cat: "sg_category s = category e" by blast
  from s ty have "s \<in> set (rule1 (or_zero inc) es)"
    by (auto simp: an_suggestions_analysis dest: rule2_type rule3_type)
  from rule1_mem [OF this] obtain e' :: expense_row where e': "e' \<in> set es"
    and pos: "d_less (Fin 0) (or_zero inc)"
    and trig: "d_less (Fin 30) (percentage_of (total e') (or_zero inc))"
    and cat': "sg_category s = category e'" by blast
  from cat cat' have "category e' = category e" by simp
  from distinct_category [OF d e e' this] trig pos
  show "d_less (Fin 0) (or_zero inc) \<and> d_less (Fin 30) (percentage_of (total e) (or_zero inc))"
    by simp
next
  assume "d_less (Fin 0) (or_zero inc) \<and> d_less (Fin 30) (percentage_of (total e) (or_zero inc))"
  with rule1_intro [of "or_zero inc" e es] e
  show "\<exists>s \<in> set (an_suggestions (analysis es inc)).
            sg_type s = ''high_spending'' \<and> sg_category s = category e"
    unfolding an_suggestions_analysis by fastforce
qed

lemma high_spending_savings:
  assumes d: "distinct (map category es)" and e: "e \<in> set es"
    and s: "s \<in> set (an_suggestions (analysis es inc))"
    and ty: "sg_type s = ''high_spending''" and cat: "sg_category s = category e"
  shows "potential_savings s = d_mul (total e) lit_0_15"
proof -
  from s ty have "s \<in> set (rule1 (or_zero inc) es)"
    by (auto simp: an_suggestions_analysis dest: rule2_type rule3_type)
  then obtain e' :: expense_row where e': "e' \<in> set es" and c: "sg_category s = category e'"
    and p: "potential_savings s = d_mul (total e') lit_0_15"
    by (auto simp: rule1_def Let_def split: if_splits)
  from cat c have "category e' = category e" by simp
  from distinct_category [OF d e e' this] p show ?thesis by simp
qed

lemma savings_goal_iff:
  "(\<exists>s \<in> set (an_suggestions (analysis es inc)). sg_type s = ''savings_goal'')
     \<longleftrightarrow> d_less (d_sub (or_zero inc) (foldl d_add (Fin 0) (map total es)))
               (d_mul (or_zero inc) lit_0_20)"
proof
  assume "\<exists>s \<in> set (an_suggestions (analysis es inc)). sg_type s = ''savings_goal''"
  then have "rule3 (or_zero inc) (foldl d_add (Fin 0) (map total es)) \<noteq> []"
    by (auto simp: an_suggestions_analysis dest: rule1_type rule2_type)
  then show "d_less (d_sub (or_zero inc) (foldl d_add (Fin 0) (map total es)))
               (d_mul (or_zero inc) lit_0_20)"
    by (simp add: rule3_nonempty)
next
  assume "d_less (d_sub (or_zero inc) (foldl d_add (Fin 0) (map total es)))
               (d_mul (or_zero inc) lit_0_20)"
  then have "rule3 (or_zero inc) (foldl d_add (Fin 0) (map total es)) \<noteq> []"
    by (simp add: rule3_nonempty)
  then obtain s where "s \<in> set (rule3 (or_zero inc) (foldl d_add (Fin 0) (map total es)))"
    by (cases "rule3 (or_zero inc) (foldl d_add (Fin 0) (map total es))") auto
  then show "\<exists>s \<in> set (an_suggestions (analysis es inc)). sg_type s = ''savings_goal''"
    by (auto simp: an_suggestions_analysis dest: rule3_type)
qed

lemma savings_goal_size:
  assumes "s \<in> set (an_suggestions (analysis es inc))" and "sg_type s = ''savings_goal''"
  shows "potential_savings s =
           d_sub (d_mul (or_zero inc) lit_0_20)
                 (d_sub (or_zero inc) (foldl d_add (Fin 0) (map total es)))"
proof -
  from assms have "s \<in> set (rule3 (or_zero inc) (foldl d_add (Fin 0) (map total es)))"
    by (auto simp: an_suggestions_analysis dest: rule1_type rule2_type)
  then show ?thesis by (simp add: rule3_savings)
qed

lemma zero_target_reachable:
  "put_bill \<lparr>bills = [zero_target_bill\<lparr>target_amount := 80\<rparr>], bill_payments = []\<rparr> ''u1'' ''b1''
     \<lparr>b_bill_name = Some ''Water'', b_bill_type = Some ''water'', b_target_amount = Some 0,
      b_due_day = None, b_is_active = Some (JBool True), b_notes = None\<rparr>
   = (Json 200 ''Bill updated successfully'', \<lparr>bills = [zero_target_bill], bill_payments = []\<rparr>)"
  by (simp add: put_bill_def update_bill_row_def bill_types_def zero_target_bill_def Let_def)

text \<open>
  C3. For a bill whose target amount is 0 and one month with payments of 50, the per-bill
  average and the overall figure report 0, but the per-month trend entry of the summary
  and the entry of the monthly trends route report the string \<open>Infinity\<close>: the guard
  on the target is missing on these two paths.
\<close>

theorem zero_target_variance_percent:
  "map bt_variance_percent (bills_with_trends (analytics_summary [zero_target_bill] zero_target_payments))
     = [JNum 0] \<and>
   overall_variance_percent (analytics_summary [zero_target_bill] zero_target_payments) = Some (JNum 0) \<and>
   map (\<lambda>b. map te_variance_percent (bt_trend_data b))
       (bills_with_trends (analytics_summary [zero_target_bill] zero_target_payments))
     = [[''Infinity'']] \<and>
   map me_variance_percent (analytics_trends [zero_target_bill] zero_target_monthly) = [''Infinity'']"
  by (simp add: analytics_summary_def analytics_trends_def bill_with_trends_def trend_of_def
      zero_target_bill_def zero_target_payments_def zero_target_monthly_def
      js_div_def js_times_def toFixed_def)

lemma ce4_pct:
  "percentage_of (Fin (7836263351624663 / 1125899906842624)) (Fin (6530219459687219 / 281474976710656))
     = Fin 30"
  by code_simp

lemma ce4_total:
  "d_add (Fin 0) (Fin (7836263351624663 / 1125899906842624)) = Fin (7836263351624663 / 1125899906842624)"
  by code_simp

lemma ce4_actual:
  "d_sub (Fin (6530219459687219 / 281474976710656)) (Fin (7836263351624663 / 1125899906842624))
     = Fin (4571153621781053 / 281474976710656)"
  by code_simp

lemma ce4_recommended:
  "d_mul (Fin (6530219459687219 / 281474976710656)) lit_0_20 = Fin (5224175567749775 / 1125899906842624)"
  by code_simp

text \<open>
  C4, refuted as stated. The doubles nearest to 6.96 and 23.2 are an expense total and an
  income whose exact ratio is above 30%, but the quotient and its product with 100 round
  to exactly 30, which is not above 30: the analysis suggests nothing.
\<close>

theorem high_spending_counterexample:
  "to_double (696 / 100) = Fin (7836263351624663 / 1125899906842624) \<and>
   to_double (232 / 10) = Fin (6530219459687219 / 281474976710656) \<and>
   (30 / 100) * (6530219459687219 / 281474976710656) < (7836263351624663 / 1125899906842624 :: rat) \<and>
   an_suggestions (analysis
      [\<lparr>category = ''Housing'', total = Fin (7836263351624663 / 1125899906842624),
        transaction_count = 1, avg_transaction = Fin (7836263351624663 / 1125899906842624)\<rparr>]
      (Some (Fin (6530219459687219 / 281474976710656)))) = []"
proof -
  have a: "to_double (696 / 100) = Fin (7836263351624663 / 1125899906842624)" by code_simp
  have b: "to_double (232 / 10) = Fin (6530219459687219 / 281474976710656)" by code_simp
  have c: "(30 / 100) * (6530219459687219 / 281474976710656)
             < (7836263351624663 / 1125899906842624 :: rat)" by simp
  have d: "an_suggestions (analysis
      [\<lparr>category = ''Housing'', total = Fin (7836263351624663 / 1125899906842624),
        transaction_count = 1, avg_transaction = Fin (7836263351624663 / 1125899906842624)\<rparr>]
      (Some (Fin (6530219459687219 / 281474976710656)))) = []"
    by (simp add: an_suggestions_analysis rule1_def rule2_def rule3_def or_zero_def Let_def
        ce4_pct ce4_total ce4_actual ce4_recommended del: d_add.simps d_mul.simps d_div.simps)
  from a b c d show ?thesis by (intro conjI)
qed

text \<open>
  C4, amended. The expense rows are grouped by category, so their categories are
  distinct. A \<open>high_spending\<close> suggestion for a row's category is among the suggestions
  if and only if the total income is positive and the percentage the handler computes in
  double arithmetic, the rounded quotient of total and income times 100, rounded again,
  is above 30; its potential savings are the rounded product of the total and the double
  0.15. For finite totals this decision agrees with the exact comparison up to rounding:
  a suggestion is produced only if the total exceeds 30% of the income, and always if the
  total is at least 1351079888211149 / 4503599627370496 (the double next above 0.3) of
  the income. 3500 against 10000 gives 35% and savings of 525; 2000 against 10000 gives
  20%.
\<close>

theorem high_spending_rule:
  "(distinct (map category expenses) \<and> e \<in> set expenses \<longrightarrow>
      ((\<exists>s \<in> set (an_suggestions (analysis expenses income)).
           sg_type s = ''high_spending'' \<and> sg_category s = category e)
        \<longleftrightarrow> d_less (Fin 0) (or_zero income) \<and>
            d_less (Fin 30) (percentage_of (total e) (or_zero income))) \<and>
      (\<forall>s \<in> set (an_suggestions (analysis expenses income)).
           sg_type s = ''high_spending'' \<and> sg_category s = category e \<longrightarrow>
           potential_savings s = d_mul (total e) lit_0_15) \<and>
      (total e = Fin t \<and> or_zero income = Fin i \<longrightarrow>
         ((\<exists>s \<in> set (an_suggestions (analysis expenses income)).
             sg_type s = ''high_spending'' \<and> sg_category s = category e)
           \<longrightarrow> 0 < i \<and> (30 / 100) * i < t) \<and>
         (0 < i \<and> (1351079888211149 / 4503599627370496) * i \<le> t \<longrightarrow>
           (\<exists>s \<in> set (an_suggestions (analysis expenses income)).
             sg_type s = ''high_spending'' \<and> sg_category s = category e)))) \<and>
   lit_0_15 = Fin (5404319552844595 / 36028797018963968) \<and>
   percentage_of (Fin 3500) (Fin 10000) = Fin 35 \<and>
   d_mul (Fin 3500) lit_0_15 = Fin 525 \<and>
   percentage_of (Fin 2000) (Fin 10000) = Fin 20"
proof -
  have general: "distinct (map category expenses) \<and> e \<in> set expenses \<longrightarrow>
      ((\<exists>s \<in> set (an_suggestions (analysis expenses income)).
           sg_type s = ''high_spending'' \<and> sg_category s = category e)
        \<longleftrightarrow> d_less (Fin 0) (or_zero income) \<and>
            d_less (Fin 30) (percentage_of (total e) (or_zero income))) \<and>
      (\<forall>s \<in> set (an_suggestions (analysis expenses income)).
           sg_type s = ''high_spending'' \<and> sg_category s = category e \<longrightarrow>
           potential_savings s = d_mul (total e) lit_0_15) \<and>
      (total e = Fin t \<and> or_zero income = Fin i \<longrightarrow>
         ((\<exists>s \<in> set (an_suggestions (analysis expenses income)).
             sg_type s = ''high_spending'' \<and> sg_category s = category e)
           \<longrightarrow> 0 < i \<and> (30 / 100) * i < t) \<and>
         (0 < i \<and> (1351079888211149 / 4503599627370496) * i \<le> t \<longrightarrow>
           (\<exists>s \<in> set (an_suggestions (analysis expenses income)).
             sg_type s = ''high_spending'' \<and> sg_category s = category e)))"
  proof (intro impI, elim conjE)
    assume d: "distinct (map category expenses)" and e: "e \<in> set expenses"
    note iff = high_spending_iff [OF d e, of income]
    have sav: "\<forall>s \<in> set (an_suggestions (analysis expenses income)).
           sg_type s = ''high_spending'' \<and> sg_category s = category e \<longrightarrow>
           potential_savings s = d_mul (total e) lit_0_15"
      using high_spending_savings [OF d e] by blast
    have bounds: "total e = Fin t \<and> or_zero income = Fin i \<longrightarrow>
         ((\<exists>s \<in> set (an_suggestions (analysis expenses income)).
             sg_type s = ''high_spending'' \<and> sg_category s = category e)
           \<longrightarrow> 0 < i \<and> (30 / 100) * i < t) \<and>
         (0 < i \<and> (1351079888211149 / 4503599627370496) * i \<le> t \<longrightarrow>
           (\<exists>s \<in> set (an_suggestions (analysis expenses income)).
             sg_type s = ''high_spending'' \<and> sg_category s = category e))"
    proof (intro impI, elim conjE)
      assume t: "total e = Fin t" and i: "or_zero income = Fin i"
      have only: "(\<exists>s \<in> set (an_suggestions (analysis expenses income)).
             sg_type s = ''high_spending'' \<and> sg_category s = category e)
           \<longrightarrow> 0 < i \<and> (30 / 100) * i < t"
      proof
        assume "\<exists>s \<in> set (an_suggestions (analysis expenses income)).
             sg_type s = ''high_spending'' \<and> sg_category s = category e"
        with iff t i have pos: "0 < i" and trig: "d_less (Fin 30) (percentage_of (Fin t) (Fin i))"
          by simp_all
        from percentage_not_above [OF pos, of t] trig have "\<not> t \<le> (30 / 100) * i" by blast
        with pos show "0 < i \<and> (30 / 100) * i < t" by simp
      qed
      have always: "0 < i \<and> (1351079888211149 / 4503599627370496) * i \<le> t \<longrightarrow>
           (\<exists>s \<in> set (an_suggestions (analysis expenses income)).
             sg_type s = ''high_spending'' \<and> sg_category s = category e)"
      proof (intro impI, elim conjE)
        assume pos: "0 < i" and le: "(1351079888211149 / 4503599627370496) * i \<le> t"
        from percentage_above [OF pos le] pos iff t i
        show "\<exists>s \<in> set (an_suggestions (analysis expenses income)).
             sg_type s = ''high_spending'' \<and> sg_category s = category e"
          by simp
      qed
      from only always
      show "((\<exists>s \<in> set (an_suggestions (analysis expenses income)).
             sg_type s = ''high_spending'' \<and> sg_category s = category e)
           \<longrightarrow> 0 < i \<and> (30 / 100) * i < t) \<and>
         (0 < i \<and> (1351079888211149 / 4503599627370496) * i \<le> t \<longrightarrow>
           (\<exists>s \<in> set (an_suggestions (analysis expenses income)).
             sg_type s = ''high_spending'' \<and> sg_category s = category e))"
        by (rule conjI)
    qed
    from iff sav bounds
    show "((\<exists>s \<in> set (an_suggestions (analysis expenses income)).
           sg_type s = ''high_spending'' \<and> sg_category s = category e)
        \<longleftrightarrow> d_less (Fin 0) (or_zero income) \<and>
            d_less (Fin 30) (percentage_of (total e) (or_zero income))) \<and>
      (\<forall>s \<in> set (an_suggestions (analysis expenses income)).
           sg_type s = ''high_spending'' \<and> sg_category s = category e \<longrightarrow>
           potential_savings s = d_mul (total e) lit_0_15) \<and>
      (total e = Fin t \<and> or_zero income = Fin i \<longrightarrow>
         ((\<exists>s \<in> set (an_suggestions (analysis expenses income)).
             sg_type s = ''high_spending'' \<and> sg_category s = category e)
           \<longrightarrow> 0 < i \<and> (30 / 100) * i < t) \<and>
         (0 < i \<and> (1351079888211149 / 4503599627370496) * i \<le> t \<longrightarrow>
           (\<exists>s \<in> set (an_suggestions (analysis expenses income)).
             sg_type s = ''high_spending'' \<and> sg_category s = category e)))"
      by (intro conjI)
  qed
  have v: "lit_0_15 = Fin (5404319552844595 / 36028797018963968)" by (rule lit_0_15_value)
  have p1: "percentage_of (Fin 3500) (Fin 10000) = Fin 35" by code_simp
  have s1: "d_mul (Fin 3500) lit_0_15 = Fin 525" by code_simp
  have p2: "percentage_of (Fin 2000) (Fin 10000) = Fin 20" by code_simp
  from general v p1 s1 p2 show ?thesis by (intro conjI)
qed

theorem high_spending_rule_witness:
  "distinct (map category
      [\<lparr>category = ''Housing'', total = Fin 3500, transaction_count = 1, avg_transaction = Fin 3500\<rparr>,
       \<lparr>category = ''Food'', total = Fin 2000, transaction_count = 4, avg_transaction = Fin 500\<rparr>]) \<and>
   (\<exists>s \<in> set (an_suggestions (analysis
        [\<lparr>category = ''Housing'', total = Fin 3500, transaction_count = 1, avg_transaction = Fin 3500\<rparr>,
         \<lparr>category = ''Food'', total = Fin 2000, transaction_count = 4, avg_transaction = Fin 500\<rparr>]
        (Some (Fin 10000)))).
      sg_type s = ''high_spending'' \<and> sg_category s = ''Housing'' \<and>
      potential_savings s = Fin 525)"
proof -
  have val: "or_zero (Some (Fin 10000)) = Fin 10000" by (simp add: or_zero_def)
  from high_spending_rule [of
      "[\<lparr>category = ''Housing'', total = Fin 3500, transaction_count = 1, avg_transaction = Fin 3500\<rparr>,
        \<lparr>category = ''Food'', total = Fin 2000, transaction_count = 4, avg_transaction = Fin 500\<rparr>]"
      "\<lparr>category = ''Housing'', total = Fin 3500, transaction_count = 1, avg_transaction = Fin 3500\<rparr>"
      "Some (Fin 10000)" 3500 10000]
  show ?thesis by (simp add: val del: d_mul.simps) (metis)
qed


lemma ce5_pct1:
  "percentage_of (Fin (2312316933678039 / 4398046511104)) (Fin (4001 / 4)) = Fin (7397564796570583 / 140737488355328)"
  by code_simp

lemma ce5_pct2:
  "percentage_of (Fin (4827999538029527 / 17592186044416)) (Fin (4001 / 4)) = Fin (1930717135927829 / 70368744177664)"
  by code_simp

lemma ce5_savings1:
  "d_mul (Fin (2312316933678039 / 4398046511104)) lit_0_15 = Fin (5549560640827293 / 70368744177664)"
  by code_simp

lemma ce5_total1:
  "d_add (Fin 0) (Fin (2312316933678039 / 4398046511104)) = Fin (2312316933678039 / 4398046511104)"
  by code_simp

lemma ce5_total2:
  "d_add (Fin (2312316933678039 / 4398046511104)) (Fin (4827999538029527 / 17592186044416)) = Fin (3519316818185421 / 4398046511104)"
  by code_simp

lemma ce5_actual:
  "d_sub (Fin (4001 / 4)) (Fin (3519316818185421 / 4398046511104)) = Fin (879829204546355 / 4398046511104)"
  by code_simp

lemma ce5_recommended:
  "d_mul (Fin (4001 / 4)) lit_0_20 = Fin (3519316818185421 / 17592186044416)"
  by code_simp

lemma ce5_shortfall:
  "d_sub (Fin (3519316818185421 / 17592186044416)) (Fin (879829204546355 / 4398046511104)) = Fin (1 / 17592186044416)"
  by code_simp

lemma analysis_totals:
  "an_total_income (analysis es inc) = or_zero inc"
  "an_total_expenses (analysis es inc) = foldl d_add (Fin 0) (map total es)"
  by (simp_all add: analysis_def Let_def)

text \<open>
  C5, refuted as stated. With an income of 1000.25 and the two expense rows nearest to
  525.76 and 274.44, income minus the sum of the rows is not below 20% of the income,
  but the sum of the rows rounds up to the double of 800.2, the difference rounds below
  the rounded product of the income and the double 0.2, and a \<open>savings_goal\<close>
  suggestion of \<open>2\<^sup>-\<^sup>4\<^sup>4\<close> is produced.
\<close>

theorem savings_goal_counterexample:
  "to_double (52576 / 100) = Fin (2312316933678039 / 4398046511104) \<and>
   to_double (27444 / 100) = Fin (4827999538029527 / 17592186044416) \<and>
   to_double (4001 / 4) = Fin (4001 / 4) \<and>
   \<not> (4001 / 4 - (2312316933678039 / 4398046511104 + 4827999538029527 / 17592186044416)
        < (20 / 100) * (4001 / 4 :: rat)) \<and>
   map (\<lambda>s. (sg_type s, potential_savings s))
     (an_suggestions (analysis
      [\<lparr>category = ''Housing'', total = Fin (2312316933678039 / 4398046511104),
        transaction_count = 1, avg_transaction = Fin (2312316933678039 / 4398046511104)\<rparr>,
       \<lparr>category = ''Food'', total = Fin (4827999538029527 / 17592186044416),
        transaction_count = 1, avg_transaction = Fin (4827999538029527 / 17592186044416)\<rparr>]
      (Some (Fin (4001 / 4)))))
     = [(''high_spending'', Fin (5549560640827293 / 70368744177664)),
        (''savings_goal'', Fin (1 / 17592186044416))]"
proof -
  have a: "to_double (52576 / 100) = Fin (2312316933678039 / 4398046511104)" by code_simp
  have b: "to_double (27444 / 100) = Fin (4827999538029527 / 17592186044416)" by code_simp
  have c: "to_double (4001 / 4) = Fin (4001 / 4)" by code_simp
  have d: "\<not> (4001 / 4 - (2312316933678039 / 4398046511104 + 4827999538029527 / 17592186044416)
        < (20 / 100) * (4001 / 4 :: rat))" by simp
  have e: "map (\<lambda>s. (sg_type s, potential_savings s))
     (an_suggestions (analysis
      [\<lparr>category = ''Housing'', total = Fin (2312316933678039 / 4398046511104),
        transaction_count = 1, avg_transaction = Fin (2312316933678039 / 4398046511104)\<rparr>,
       \<lparr>category = ''Food'', total = Fin (4827999538029527 / 17592186044416),
        transaction_count = 1, avg_transaction = Fin (4827999538029527 / 17592186044416)\<rparr>]
      (Some (Fin (4001 / 4)))))
     = [(''high_spending'', Fin (5549560640827293 / 70368744177664)),
        (''savings_goal'', Fin (1 / 17592186044416))]"
    by (simp add: an_suggestions_analysis rule1_def rule2_def rule3_def or_zero_def Let_def
        ce5_pct1 ce5_pct2 ce5_savings1 ce5_total1 ce5_total2 ce5_actual ce5_recommended
        ce5_shortfall del: d_add.simps d_mul.simps d_div.simps)
  from a b c d e show ?thesis by (intro conjI)
qed

text \<open>
  C5, amended. A \<open>savings_goal\<close> suggestion is among the suggestions if and only if
  the rounded difference of the reported total income and total expenses is below the
  rounded product of the total income and the double 0.2, and every such suggestion has
  the rounded difference of these two values as its potential savings. The reported
  total expenses are the row totals added from the left, rounding after every addition.
  For finite totals and a non-negative income, a suggestion is produced only if the
  reported income minus the reported expenses is below income times the double 0.2. For
  an income of 5000 and expenses of 4500 the suggestion is sized to 500.
\<close>

theorem savings_goal_rule:
  "((\<exists>s \<in> set (an_suggestions (analysis expenses income)). sg_type s = ''savings_goal'')
      \<longleftrightarrow> d_less (d_sub (an_total_income (analysis expenses income)) (an_total_expenses (analysis expenses income)))
                 (d_mul (an_total_income (analysis expenses income)) lit_0_20)) \<and>
   (\<forall>s \<in> set (an_suggestions (analysis expenses income)). sg_type s = ''savings_goal'' \<longrightarrow>
      potential_savings s =
        d_sub (d_mul (an_total_income (analysis expenses income)) lit_0_20)
              (d_sub (an_total_income (analysis expenses income)) (an_total_expenses (analysis expenses income)))) \<and>
   an_total_income (analysis expenses income) = or_zero income \<and>
   an_total_expenses (analysis expenses income) = foldl d_add (Fin 0) (map total expenses) \<and>
   (an_total_income (analysis expenses income) = Fin i \<and> an_total_expenses (analysis expenses income) = Fin x \<and> 0 \<le> i \<and>
    (\<exists>s \<in> set (an_suggestions (analysis expenses income)). sg_type s = ''savings_goal'')
      \<longrightarrow> i - x < i * (3602879701896397 / 18014398509481984)) \<and>
   lit_0_20 = Fin (3602879701896397 / 18014398509481984) \<and>
   d_less (d_sub (Fin 5000) (Fin 4500)) (d_mul (Fin 5000) lit_0_20) \<and>
   d_sub (d_mul (Fin 5000) lit_0_20) (d_sub (Fin 5000) (Fin 4500)) = Fin 500"
proof -
  have iff: "(\<exists>s \<in> set (an_suggestions (analysis expenses income)). sg_type s = ''savings_goal'')
      \<longleftrightarrow> d_less (d_sub (an_total_income (analysis expenses income)) (an_total_expenses (analysis expenses income)))
                 (d_mul (an_total_income (analysis expenses income)) lit_0_20)"
    unfolding analysis_totals by (rule savings_goal_iff)
  have size: "\<forall>s \<in> set (an_suggestions (analysis expenses income)). sg_type s = ''savings_goal'' \<longrightarrow>
      potential_savings s =
        d_sub (d_mul (an_total_income (analysis expenses income)) lit_0_20)
              (d_sub (an_total_income (analysis expenses income)) (an_total_expenses (analysis expenses income)))"
    unfolding analysis_totals using savings_goal_size by blast
  have only: "an_total_income (analysis expenses income) = Fin i \<and> an_total_expenses (analysis expenses income) = Fin x \<and> 0 \<le> i \<and>
    (\<exists>s \<in> set (an_suggestions (analysis expenses income)). sg_type s = ''savings_goal'')
      \<longrightarrow> i - x < i * (3602879701896397 / 18014398509481984)"
  proof (intro impI, elim conjE)
    assume i: "an_total_income (analysis expenses income) = Fin i" and x: "an_total_expenses (analysis expenses income) = Fin x"
      and pos: "0 \<le> i" and ex: "(\<exists>s \<in> set (an_suggestions (analysis expenses income)). sg_type s = ''savings_goal'')"
    from ex iff i x have "d_less (d_sub (Fin i) (Fin x)) (d_mul (Fin i) lit_0_20)" by simp
    with savings_not_below [OF pos, of x]
    have "\<not> i * (3602879701896397 / 18014398509481984) \<le> i - x" by blast
    then show "i - x < i * (3602879701896397 / 18014398509481984)" by simp
  qed
  have v: "lit_0_20 = Fin (3602879701896397 / 18014398509481984)" by (rule lit_0_20_value)
  have e1: "d_less (d_sub (Fin 5000) (Fin 4500)) (d_mul (Fin 5000) lit_0_20)" by code_simp
  have e2: "d_sub (d_mul (Fin 5000) lit_0_20) (d_sub (Fin 5000) (Fin 4500)) = Fin 500"
    by code_simp
  from iff size analysis_totals [of expenses income] only v e1 e2 show ?thesis by (intro conjI)
qed

theorem savings_goal_rule_witness:
  "0 \<le> (5000 :: rat) \<and>
   (\<exists>s \<in> set (an_suggestions (analysis
        [\<lparr>category = ''Housing'', total = Fin 4500, transaction_count = 1,
          avg_transaction = Fin 4500\<rparr>]
        (Some (Fin 5000)))). sg_type s = ''savings_goal'' \<and> potential_savings s = Fin 500) \<and>
   (5000 - 4500 :: rat) < 5000 * (3602879701896397 / 18014398509481984)"
proof -
  have val: "or_zero (Some (Fin 5000)) = Fin 5000" by (simp add: or_zero_def)
  have tot: "d_add (Fin 0) (Fin 4500) = Fin 4500" by code_simp
  from savings_goal_rule [of
      "[\<lparr>category = ''Housing'', total = Fin 4500, transaction_count = 1,
         avg_transaction = Fin 4500\<rparr>]"
      "Some (Fin 5000)" 5000 4500]
  show ?thesis by (simp add: val tot del: d_add.simps d_mul.simps) (metis)
qed








text \<open>
  C7. On a database where Bob owns bill \<open>b1\<close> and its one payment, Alice's
  \<open>GET /b1/payments\<close> returns Bob's payment row, and Alice's \<open>DELETE /b1\<close> answers
  404 and leaves Bob's bill, yet removes Bob's payment: both statements on
  \<open>bill_payments\<close> select by \<open>bill_id\<close> alone. The sibling route
  \<open>DELETE /payments/p1\<close>, which does filter by the user, answers Alice 404 and
  changes nothing.
\<close>

theorem bill_payments_cross_user:
  "get_payments two_user_db ''alice'' ''b1'' None = Json 200 [bobs_payment] \<and>
   pay_user_id bobs_payment = ''bob'' \<and>
   delete_bill two_user_db ''alice'' ''b1''
     = (Error 404 ''Bill not found'', \<lparr>bills = [bobs_bill], bill_payments = []\<rparr>) \<and>
   bill_payments two_user_db = [bobs_payment] \<and>
   delete_payment two_user_db ''alice'' ''p1'' = (Error 404 ''Payment not found'', two_user_db)"
  by (simp add: get_payments_def delete_bill_def delete_payment_def two_user_db_def
      bobs_payment_def bobs_bill_def order_by_payment_date_desc_def Let_def)




lemma try_providers_skip:
  "try_providers now db u tokens prompt options ps le att =
   try_providers now db u tokens prompt options (filter (\<lambda>p. has_token tokens (fst p)) ps) le att"
proof (induction ps arbitrary: le att)
  case Nil
  show ?case by simp
next
  case (Cons p ps)
  obtain name meth where p: "p = (name, meth)" by (cases p)
  show ?case
  proof (cases "has_token tokens name")
    case False
    with Cons.IH [of le att] p show ?thesis
      by (cases "tokens name") (simp_all add: has_token_def)
  next
    case True
    then obtain token where tok: "tokens name = Some token" "token \<noteq> []"
      by (auto simp: has_token_def split: option.splits)
    show ?thesis
    proof (cases "meth token prompt options")
      case (Inl msg)
      with Cons.IH [of "Some msg" "att @ [name]"] p tok True show ?thesis by simp
    next
      case (Inr answer)
      with p tok True show ?thesis by simp
    qed
  qed
qed

lemma try_providers_fail:
  assumes "\<forall>p \<in> set ps. has_token tokens (fst p) \<and> isl (attempt tokens prompt options p)"
  shows "try_providers now db u tokens prompt options ps le att =
     \<lparr>co_result = Inl (aggregated_error
         (if ps = [] then le else Some (projl (attempt tokens prompt options (last ps))))),
      co_db = db, co_attempted = att @ map fst ps\<rparr>"
  using assms
proof (induction ps arbitrary: le att)
  case Nil
  then show ?case by (simp add: aggregated_error_def)
next
  case (Cons p ps)
  obtain name meth where p: "p = (name, meth)" by (cases p)
  from Cons.prems p obtain token where tok: "tokens name = Some token" "token \<noteq> []"
    by (auto simp: has_token_def split: option.splits)
  from Cons.prems p tok obtain msg where msg: "meth token prompt options = Inl msg"
    by (cases "meth token prompt options") (auto simp: attempt_def)
  from Cons.prems have rest: "\<forall>q \<in> set ps. has_token tokens (fst q) \<and> isl (attempt tokens prompt options q)"
    by simp
  show ?case
    using Cons.IH [OF rest, of "Some msg" "att @ [name]"] p tok msg
    by (simp add: attempt_def)
qed

lemma try_providers_success:
  assumes "\<forall>p \<in> set pre. has_token tokens (fst p) \<and> isl (attempt tokens prompt options p)"
    and "has_token tokens name" and "attempt tokens prompt options (name, method) = Inr text"
  shows "try_providers now db u tokens prompt options (pre @ (name, method) # post) le att =
     \<lparr>co_result = Inr (completion_of options name text),
      co_db = updateLastUsed now db u name, co_attempted = att @ map fst pre @ [name]\<rparr>"
  using assms(1)
proof (induction pre arbitrary: le att)
  case Nil
  from assms(2) obtain token where tok: "tokens name = Some token" "token \<noteq> []"
    by (auto simp: has_token_def split: option.splits)
  with assms(3) show ?case by (simp add: attempt_def completion_of_def)
next
  case (Cons p pre)
  obtain n m where p: "p = (n, m)" by (cases p)
  from Cons.prems p obtain token where tok: "tokens n = Some token" "token \<noteq> []"
    by (auto simp: has_token_def split: option.splits)
  from Cons.prems p tok obtain msg where msg: "m token prompt options = Inl msg"
    by (cases "m token prompt options") (auto simp: attempt_def)
  from Cons.prems have rest: "\<forall>q \<in> set pre. has_token tokens (fst q) \<and> isl (attempt tokens prompt options q)"
    by simp
  show ?case
    using Cons.IH [OF rest, of "Some msg" "att @ [n]"] p tok msg by simp
qed

lemma providers_names: "map fst (providers net) = provider_order"
  by (simp add: providers_def provider_order_def)

lemma providers_filter_names:
  "map fst (filter (\<lambda>p. has_token tokens (fst p)) (providers net)) = filter (has_token tokens) provider_order"
  by (simp add: filter_map o_def flip: providers_names [of net])

lemma providers_call:
  "p \<in> set (providers net) \<Longrightarrow>
     provider_call net tokens prompt options (fst p) = attempt tokens prompt options p"
  by (auto simp: providers_def provider_call_def)

lemma generateCompletion_fail:
  assumes "\<forall>n \<in> set (filter (has_token (getUserTokens dec db u)) provider_order).
             isl (provider_call net (getUserTokens dec db u) prompt options n)"
  shows "generateCompletion net dec now db u prompt options =
     \<lparr>co_result = Inl (aggregated_error
         (if filter (has_token (getUserTokens dec db u)) provider_order = [] then None
          else Some (projl (provider_call net (getUserTokens dec db u) prompt options
                 (last (filter (has_token (getUserTokens dec db u)) provider_order)))))),
      co_db = db,
      co_attempted = filter (has_token (getUserTokens dec db u)) provider_order\<rparr>"
proof -
  let ?tokens = "getUserTokens dec db u"
  let ?ps = "filter (\<lambda>p. has_token ?tokens (fst p)) (providers net)"
  have names: "map fst ?ps = filter (has_token ?tokens) provider_order"
    by (rule providers_filter_names)
  have all: "\<forall>p \<in> set ?ps. has_token ?tokens (fst p) \<and> isl (attempt ?tokens prompt options p)"
  proof
    fix p assume p: "p \<in> set ?ps"
    then have "fst p \<in> set (map fst ?ps)" by force
    then have "fst p \<in> set (filter (has_token ?tokens) provider_order)"
      by (simp only: names)
    with assms have "isl (provider_call net ?tokens prompt options (fst p))" by blast
    with p show "has_token ?tokens (fst p) \<and> isl (attempt ?tokens prompt options p)"
      by (simp add: providers_call)
  qed
  have lastp: "provider_call net ?tokens prompt options (last (filter (has_token ?tokens) provider_order))
      = attempt ?tokens prompt options (last ?ps)" if ne: "?ps \<noteq> []"
  proof -
    from ne have "last ?ps \<in> set (providers net)"
      using last_in_set [OF ne] by simp
    then have "provider_call net ?tokens prompt options (fst (last ?ps)) = attempt ?tokens prompt options (last ?ps)"
      by (rule providers_call)
    moreover from ne have "fst (last ?ps) = last (map fst ?ps)" by (simp add: last_map)
    ultimately show ?thesis by (simp only: names)
  qed
  have empty: "(?ps = []) = (filter (has_token ?tokens) provider_order = [])"
    unfolding names [symmetric] by simp
  show ?thesis
    unfolding generateCompletion_def
    apply (subst try_providers_skip)
    apply (subst try_providers_fail [OF all])
    using lastp empty names by auto
qed

lemma generateCompletion_success:
  assumes split: "filter (has_token (getUserTokens dec db u)) provider_order = pre @ n # post"
    and fails: "\<forall>m \<in> set pre. isl (provider_call net (getUserTokens dec db u) prompt options m)"
    and ok: "provider_call net (getUserTokens dec db u) prompt options n = Inr text"
  shows "generateCompletion net dec now db u prompt options =
     \<lparr>co_result = Inr (completion_of options n text),
      co_db = updateLastUsed now db u n,
      co_attempted = pre @ [n]\<rparr>"
proof -
  let ?tokens = "getUserTokens dec db u"
  let ?ps = "filter (\<lambda>p. has_token ?tokens (fst p)) (providers net)"
  have names: "map fst ?ps = pre @ n # post"
    using providers_filter_names [of ?tokens net] split by simp
  then obtain ppre p ppost where ps: "?ps = ppre @ p # ppost"
    and pre: "map fst ppre = pre" and p: "fst p = n"
    by (auto simp: map_eq_append_conv map_eq_Cons_conv)
  have mem: "q \<in> set ?ps \<Longrightarrow> q \<in> set (providers net) \<and> has_token ?tokens (fst q)" for q
    by simp
  have all: "\<forall>q \<in> set ppre. has_token ?tokens (fst q) \<and> isl (attempt ?tokens prompt options q)"
  proof
    fix q assume q: "q \<in> set ppre"
    then have "q \<in> set ?ps" by (simp add: ps)
    from mem [OF this] have qp: "q \<in> set (providers net)" and ht: "has_token ?tokens (fst q)" by simp_all
    from q pre have "fst q \<in> set pre" by auto
    with fails have "isl (provider_call net ?tokens prompt options (fst q))" by blast
    with qp ht show "has_token ?tokens (fst q) \<and> isl (attempt ?tokens prompt options q)"
      by (simp add: providers_call)
  qed
  have "p \<in> set ?ps" by (simp add: ps)
  from mem [OF this] have pp: "p \<in> set (providers net)" and pt: "has_token ?tokens n"
    by (simp_all add: p)
  from providers_call [OF pp, of ?tokens prompt options] ok p
  have pok: "attempt ?tokens prompt options (n, snd p) = Inr text"
    by (metis prod.collapse)
  have peq: "p = (n, snd p)" using p by (metis prod.collapse)
  show ?thesis
    unfolding generateCompletion_def
    apply (subst try_providers_skip)
    apply (subst ps)
    apply (subst peq)
    apply (subst try_providers_success [OF all pt pok])
    by (simp add: pre)
qed

lemma fold_tokens_source:
  "fold (\<lambda>row tokens. case dec (token_encrypted row) of
                          Inr token \<Rightarrow> tokens(tok_service row \<mapsto> token)
                        | Inl e \<Rightarrow> tokens) rows m n = Some t \<Longrightarrow>
   m n = Some t \<or> (\<exists>r \<in> set rows. tok_service r = n \<and> dec (token_encrypted r) = Inr t)"
proof (induction rows arbitrary: m)
  case Nil
  then show ?case by simp
next
  case (Cons r rows)
  from Cons.IH [OF Cons.prems [simplified]] show ?case
    by (auto split: sum.splits if_splits)
qed

lemma getUserTokens_source:
  assumes "getUserTokens dec db u n = Some t"
  shows "\<exists>r \<in> set (ai_tokens db). tok_user_id r = u \<and> tok_service r = n \<and>
           tok_is_active r = Some 1 \<and> dec (token_encrypted r) = Inr t"
  using fold_tokens_source [OF assms [unfolded getUserTokens_def]] by auto

text \<open>
  C6. The providers attempted are those of groq, huggingface, together, openrouter, in
  this order, for which the user has an active row whose token decrypts to a non-empty
  string. If the attempted providers before \<open>n\<close> all fail and \<open>n\<close> answers, the
  result is \<open>n\<close>'s answer (trimmed), the \<open>last_used\<close> update is made for \<open>n\<close>, and
  no later provider is attempted. If every attempted provider fails, or none is
  attempted, the outcome is one thrown error (built from the last failure, or the
  no-tokens message) and the database is unchanged.
\<close>

theorem provider_fallback:
  "(filter (has_token (getUserTokens dec db u)) provider_order = pre @ n # post \<and>
    (\<forall>m \<in> set pre. isl (provider_call net (getUserTokens dec db u) prompt options m)) \<and>
    provider_call net (getUserTokens dec db u) prompt options n = Inr answer \<longrightarrow>
      generateCompletion net dec now db u prompt options =
        \<lparr>co_result = Inr (completion_of options n answer),
         co_db = updateLastUsed now db u n,
         co_attempted = pre @ [n]\<rparr>) \<and>
   ((\<forall>m \<in> set (filter (has_token (getUserTokens dec db u)) provider_order).
        isl (provider_call net (getUserTokens dec db u) prompt options m)) \<longrightarrow>
      generateCompletion net dec now db u prompt options =
        \<lparr>co_result = Inl (aggregated_error
           (if filter (has_token (getUserTokens dec db u)) provider_order = [] then None
            else Some (projl (provider_call net (getUserTokens dec db u) prompt options
                   (last (filter (has_token (getUserTokens dec db u)) provider_order)))))),
         co_db = db,
         co_attempted = filter (has_token (getUserTokens dec db u)) provider_order\<rparr>) \<and>
   (getUserTokens dec db u s = Some t \<longrightarrow>
      (\<exists>r \<in> set (ai_tokens db). tok_user_id r = u \<and> tok_service r = s \<and>
         tok_is_active r = Some 1 \<and> dec (token_encrypted r) = Inr t)) \<and>
   provider_order = [''groq'', ''huggingface'', ''together'', ''openrouter'']"
  using generateCompletion_success [of dec db u pre n post net prompt options answer now]
    generateCompletion_fail [of dec db u net prompt options now]
    getUserTokens_source [of dec db u s t]
  by (simp add: provider_order_def)

theorem provider_fallback_witness:
  "filter (has_token (getUserTokens clear_dec fallback_db ''u1'')) provider_order
     = [''groq''] @ ''huggingface'' # [] \<and>
   provider_call fallback_net (getUserTokens clear_dec fallback_db ''u1'') (ascii ''advise'') no_options ''groq''
     = Inl ''Groq API failed: timeout'' \<and>
   provider_call fallback_net (getUserTokens clear_dec fallback_db ''u1'') (ascii ''advise'') no_options ''huggingface''
     = Inr (ascii '' save more '') \<and>
   co_result (generateCompletion fallback_net clear_dec ''2024-03-01 10:00:00'' fallback_db ''u1'' (ascii ''advise'') no_options)
     = Inr \<lparr>cp_text = ascii ''save more'', cp_provider = ''huggingface'', cp_model = ''default'',
            cp_tokenCount = 11 / 4\<rparr> \<and>
   map (\<lambda>r. (tok_service r, last_used r))
     (ai_tokens (co_db (generateCompletion fallback_net clear_dec ''2024-03-01 10:00:00'' fallback_db ''u1''
        (ascii ''advise'') no_options)))
     = [(''groq'', None), (''huggingface'', Some ''2024-03-01 10:00:00''), (''together'', None)] \<and>
   co_attempted (generateCompletion fallback_net clear_dec ''2024-03-01 10:00:00'' fallback_db ''u1''
        (ascii ''advise'') no_options) = [''groq'', ''huggingface'']"
proof -
  let ?tokens = "getUserTokens clear_dec fallback_db ''u1''"
  have tokens: "?tokens = [''groq'' \<mapsto> ''gsk_token'', ''huggingface'' \<mapsto> ''hf_token'']"
    by (simp add: getUserTokens_def fallback_db_def clear_dec_def)
  have attempted: "filter (has_token ?tokens) provider_order = [''groq''] @ ''huggingface'' # []"
    unfolding tokens by (simp add: has_token_def provider_order_def)
  have groq: "provider_call fallback_net ?tokens (ascii ''advise'') no_options ''groq''
      = Inl ''Groq API failed: timeout''"
    unfolding tokens
    by (simp add: provider_call_def providers_def attempt_def callGroq_def fallback_net_def)
  have hf: "provider_call fallback_net ?tokens (ascii ''advise'') no_options ''huggingface''
      = Inr (ascii '' save more '')"
    unfolding tokens
    by (simp add: provider_call_def providers_def attempt_def callHuggingFace_def fallback_net_def)
  from groq have pre: "\<forall>m \<in> set [''groq'']. isl (provider_call fallback_net ?tokens (ascii ''advise'') no_options m)"
    by simp
  have comp: "completion_of no_options ''huggingface'' (ascii '' save more '')
      = \<lparr>cp_text = ascii ''save more'', cp_provider = ''huggingface'', cp_model = ''default'',
            cp_tokenCount = 11 / 4\<rparr>"
    by (simp add: completion_of_def no_options_def trim_def ascii_def is_space_def)
  have upd: "map (\<lambda>r. (tok_service r, last_used r))
      (ai_tokens (updateLastUsed ''2024-03-01 10:00:00'' fallback_db ''u1'' ''huggingface''))
     = [(''groq'', None), (''huggingface'', Some ''2024-03-01 10:00:00''), (''together'', None)]"
    by (simp add: updateLastUsed_def fallback_db_def)
  from provider_fallback [of clear_dec fallback_db "''u1''" "[''groq'']" "''huggingface''" "[]"
      fallback_net "ascii ''advise''" no_options "ascii '' save more ''" "''2024-03-01 10:00:00''"]
    attempted pre hf
  have "generateCompletion fallback_net clear_dec ''2024-03-01 10:00:00'' fallback_db ''u1'' (ascii ''advise'') no_options
     = \<lparr>co_result = Inr (completion_of no_options ''huggingface'' (ascii '' save more '')),
        co_db = updateLastUsed ''2024-03-01 10:00:00'' fallback_db ''u1'' ''huggingface'',
        co_attempted = [''groq''] @ [''huggingface'']\<rparr>"
    by blast
  with attempted groq hf comp upd show ?thesis by simp
qed

lemma match_bracketed_Some:
  assumes "match_bracketed s = Some m"
  shows "\<exists>a b. s = a @ m @ b \<and> 91 \<notin> set a \<and> 93 \<notin> set b \<and> hd m = 91 \<and> last m = 93"
proof -
  let ?a = "takeWhile (\<lambda>c. c \<noteq> 91) s"
  let ?fo = "dropWhile (\<lambda>c. c \<noteq> 91) s"
  let ?d = "dropWhile (\<lambda>c. c \<noteq> 93) (rev ?fo)"
  let ?b = "rev (takeWhile (\<lambda>c. c \<noteq> 93) (rev ?fo))"
  from assms have m: "m = rev ?d" and ne: "?d \<noteq> []"
    by (auto simp: match_bracketed_def Let_def split: if_splits)
  have "m @ ?b = rev (takeWhile (\<lambda>c. c \<noteq> 93) (rev ?fo) @ ?d)"
    unfolding m by (simp only: rev_append)
  also have "\<dots> = rev (rev ?fo)" by (simp only: takeWhile_dropWhile_id)
  finally have fo: "?fo = m @ ?b" by simp
  have s: "s = ?a @ m @ ?b" using fo takeWhile_dropWhile_id [of "\<lambda>c. c \<noteq> 91" s] by simp
  have a: "91 \<notin> set ?a" by (auto dest: set_takeWhileD)
  have b: "93 \<notin> set ?b" by (auto dest: set_takeWhileD)
  from ne have "hd ?d = 93" using hd_dropWhile [OF ne] by simp
  with ne have lastm: "last m = 93" by (simp add: m last_rev)
  from ne have mne: "m \<noteq> []" by (simp add: m)
  have fone: "?fo \<noteq> []" using mne by (subst fo) simp
  from hd_dropWhile [OF fone] have "hd ?fo = 91" by simp
  with fo mne have hdm: "hd m = 91" by (metis hd_append2)
  from s a b hdm lastm show ?thesis by blast
qed

lemma fold_insight_step_none:
  "\<forall>line \<in> set lines. \<not> starts_item line \<Longrightarrow> fold insight_step lines (acc, None) = (acc, None)"
  by (induction lines) (simp_all add: insight_step_def)

lemma parseNaturalLanguageInsights_nonempty: "parseNaturalLanguageInsights text \<noteq> []"
  by (simp add: parseNaturalLanguageInsights_def Let_def)

lemma parseNaturalLanguageInsights_plain:
  assumes "\<forall>line \<in> set (split_on 10 text). \<not> starts_item line"
  shows "parseNaturalLanguageInsights text = [analysis_insight text]"
proof -
  from assms have "\<forall>line \<in> set (filter (\<lambda>line. trim line \<noteq> []) (split_on 10 text)). \<not> starts_item line"
    by simp
  from fold_insight_step_none [OF this, of "[]"] show ?thesis
    by (simp add: parseNaturalLanguageInsights_def Let_def)
qed

text \<open>
  C9. When the pattern matches, the match runs from the first \<open>[\<close> of the text to its
  last \<open>]\<close>; when \<open>JSON.parse\<close> accepts the match, its value is the insights; when it
  throws, the insights are the single insight whose message is the text. When the
  pattern does not match, the insights are those of \<open>parseNaturalLanguageInsights\<close>,
  a non-empty list, which is the single insight whose message is the text when no line
  starts an item. Whenever \<open>generateCompletion\<close> returns, \<open>generateFinancialInsights\<close>
  returns these insights with the provider: it does not throw on the text.
\<close>

theorem insights_parsing:
  "(match_bracketed text = Some m \<longrightarrow>
      (\<exists>a b. text = a @ m @ b \<and> 91 \<notin> set a \<and> 93 \<notin> set b \<and> hd m = 91 \<and> last m = 93)) \<and>
   (match_bracketed text = Some m \<and> parse m = Some j \<longrightarrow> insights_of_text parse text = Parsed j) \<and>
   (match_bracketed text = Some m \<and> parse m = None \<longrightarrow>
      insights_of_text parse text = Built [raw_insight text]) \<and>
   (match_bracketed text = None \<longrightarrow>
      insights_of_text parse text = Built (parseNaturalLanguageInsights text) \<and>
      parseNaturalLanguageInsights text \<noteq> [] \<and>
      ((\<forall>line \<in> set (split_on 10 text). \<not> starts_item line) \<longrightarrow>
         parseNaturalLanguageInsights text = [analysis_insight text])) \<and>
   in_message (raw_insight text) = text \<and> in_message (analysis_insight text) = text \<and>
   (co_result (generateCompletion net dec now db u prompt insights_options) = Inr result \<longrightarrow>
      fst (generateFinancialInsights parse net dec now iso_now db u prompt) =
        Inr \<lparr>ir_insights = insights_of_text parse (cp_text result),
              ir_provider = cp_provider result, ir_generated_at = iso_now\<rparr>)"
proof -
  have gen: "co_result (generateCompletion net dec now db u prompt insights_options) = Inr result \<longrightarrow>
      fst (generateFinancialInsights parse net dec now iso_now db u prompt) =
        Inr \<lparr>ir_insights = insights_of_text parse (cp_text result),
              ir_provider = cp_provider result, ir_generated_at = iso_now\<rparr>"
    by (simp add: generateFinancialInsights_def Let_def)
  have cases: "(match_bracketed text = Some m \<and> parse m = Some j \<longrightarrow> insights_of_text parse text = Parsed j) \<and>
   (match_bracketed text = Some m \<and> parse m = None \<longrightarrow>
      insights_of_text parse text = Built [raw_insight text]) \<and>
   (match_bracketed text = None \<longrightarrow>
      insights_of_text parse text = Built (parseNaturalLanguageInsights text))"
    by (simp add: insights_of_text_def)
  have msgs: "in_message (raw_insight text) = text \<and> in_message (analysis_insight text) = text"
    by (simp add: raw_insight_def analysis_insight_def)
  from match_bracketed_Some [of "text" m] parseNaturalLanguageInsights_nonempty [of "text"]
    parseNaturalLanguageInsights_plain [of "text"] gen cases msgs
  show ?thesis by blast
qed

theorem insights_parsing_witness:
  "match_bracketed (ascii ''Here: [1] done'') = Some (ascii ''[1]'') \<and>
   tiny_parse (ascii ''[1]'') = Some [1] \<and>
   insights_of_text tiny_parse (ascii ''Here: [1] done'') = Parsed [1] \<and>
   match_bracketed (ascii ''See [1] and [2]'') = Some (ascii ''[1] and [2]'') \<and>
   tiny_parse (ascii ''[1] and [2]'') = None \<and>
   insights_of_text tiny_parse (ascii ''See [1] and [2]'') = Built [raw_insight (ascii ''See [1] and [2]'')] \<and>
   match_bracketed (ascii ''Save more.'') = None \<and>
   insights_of_text tiny_parse (ascii ''Save more.'') = Built [analysis_insight (ascii ''Save more.'')]"
proof -
  have m1: "match_bracketed (ascii ''Here: [1] done'') = Some (ascii ''[1]'')"
    by (simp add: match_bracketed_def ascii_def Let_def)
  have p1: "tiny_parse (ascii ''[1]'') = Some [1]"
    by (simp add: tiny_parse_def ascii_def)
  have m2: "match_bracketed (ascii ''See [1] and [2]'') = Some (ascii ''[1] and [2]'')"
    by (simp add: match_bracketed_def ascii_def Let_def)
  have p2: "tiny_parse (ascii ''[1] and [2]'') = None"
    by (simp add: tiny_parse_def ascii_def)
  have m3: "match_bracketed (ascii ''Save more.'') = None"
    by (simp add: match_bracketed_def ascii_def Let_def)
  have l3: "\<forall>line \<in> set (split_on 10 (ascii ''Save more.'')). \<not> starts_item line"
    by (simp add: ascii_def starts_item_def)
  from insights_parsing [of "ascii ''Here: [1] done''" "ascii ''[1]''" tiny_parse "[1]"] m1 p1
  have r1: "insights_of_text tiny_parse (ascii ''Here: [1] done'') = Parsed [1]" by blast
  from insights_parsing [of "ascii ''See [1] and [2]''" "ascii ''[1] and [2]''" tiny_parse] m2 p2
  have r2: "insights_of_text tiny_parse (ascii ''See [1] and [2]'') = Built [raw_insight (ascii ''See [1] and [2]'')]"
    by blast
  from insights_parsing [of "ascii ''Save more.''" _ tiny_parse] m3 l3
  have r3: "insights_of_text tiny_parse (ascii ''Save more.'') = Built [analysis_insight (ascii ''Save more.'')]"
    by simp
  from m1 p1 r1 m2 p2 r2 m3 r3 show ?thesis by blast
qed

lemma strip_lead: "q < m \<Longrightarrow> (k * m + q) mod m = (q::nat)"
  by simp

lemma decode_one: "u < 0x80 \<Longrightarrow> utf8_units (u # bs) = u # utf8_units bs"
  by simp

lemma decode_two:
  assumes "\<not> u < 0x80" "u < 0x800"
  shows "utf8_units ((0xC0 + u div 64) # (0x80 + u mod 64) # bs) = u # utf8_units bs"
proof -
  define q r where "q = u div 64" and "r = u mod 64"
  have u: "u = q * 64 + r" and r: "r < 64" by (simp_all add: q_def r_def)
  from assms u r have q: "2 \<le> q" "q < 32" by linarith+
  have c: "continuation (0x80 + r)" using r by (simp add: continuation_def)
  from strip_lead [of q 32 6] q have d: "(0xC0 + q) mod 32 = q" by simp
  from strip_lead [of r 64 2] r have e: "(0x80 + r) mod 64 = r" by simp
  from q have f: "\<not> 0xC0 + q < 0x80" "0xC2 \<le> 0xC0 + q" "0xC0 + q \<le> 0xDF" by simp_all
  have "utf8_units ((0xC0 + q) # (0x80 + r) # bs) = (q * 64 + r) # utf8_units bs"
    apply (subst utf8_units.simps)
    apply (simp only: f c d e if_True if_False list.case simp_thms)
    done
  then show ?thesis unfolding q_def r_def by simp
qed

lemma decode_three:
  assumes "\<not> u < 0x800" "u < 0x10000" "\<not> is_high u" "\<not> is_low u"
  shows "utf8_units ((0xE0 + u div 4096) # (0x80 + (u div 64) mod 64) # (0x80 + u mod 64) # bs)
           = u # utf8_units bs"
proof -
  define q r where "q = u div 64" and "r = u mod 64"
  define q1 r1 where "q1 = q div 64" and "r1 = q mod 64"
  have u: "u = q * 64 + r" and r: "r < 64" by (simp_all add: q_def r_def)
  have q: "q = q1 * 64 + r1" and r1: "r1 < 64" by (simp_all add: q1_def r1_def)
  have d4096: "u div 4096 = q1"
    unfolding q1_def q_def by (simp add: div_mult2_eq [symmetric])
  from assms(1,2) u q r r1 have q1: "q1 < 16" by linarith
  from assms(3,4) have ns: "u < 0xD800 \<or> 0xDFFF < u" by (auto simp: is_high_def is_low_def)
  have lo: "q1 = 0 \<Longrightarrow> 32 \<le> r1" using assms(1) u q r by linarith
  have hi: "q1 = 13 \<Longrightarrow> r1 < 32" using ns u q r r1 by linarith
  have c1: "(if 0xE0 + q1 = 0xE0 then 0xA0 else 0x80) \<le> 0x80 + r1 \<and>
            0x80 + r1 \<le> (if 0xE0 + q1 = 0xED then 0x9F else 0xBF)"
    using lo hi r1 by auto
  have c2: "continuation (0x80 + r)" using r by (simp add: continuation_def)
  from strip_lead [of q1 16 14] q1 have d: "(0xE0 + q1) mod 16 = q1" by simp
  from strip_lead [of r1 64 2] r1 have e1: "(0x80 + r1) mod 64 = r1" by simp
  from strip_lead [of r 64 2] r have e2: "(0x80 + r) mod 64 = r" by simp
  from q1 have f: "\<not> 0xE0 + q1 < 0x80" "\<not> (0xC2 \<le> 0xE0 + q1 \<and> 0xE0 + q1 \<le> 0xDF)"
    "0xE0 \<le> 0xE0 + q1 \<and> 0xE0 + q1 \<le> 0xEF" by simp_all
  have "utf8_units ((0xE0 + q1) # (0x80 + r1) # (0x80 + r) # bs)
          = (q1 * 4096 + r1 * 64 + r) # utf8_units bs"
    apply (subst utf8_units.simps)
    apply (simp only: f c1 c2 d e1 e2 if_True if_False list.case simp_thms)
    done
  moreover have "q1 * 4096 + r1 * 64 + r = u" using u q by simp
  ultimately show ?thesis unfolding d4096 unfolding r1_def r_def q_def [symmetric] by simp
qed

lemma decode_four:
  assumes "is_high u" "is_low v"
  shows "(let c = 0x10000 + (u - 0xD800) * 1024 + (v - 0xDC00)
          in utf8_units ((0xF0 + c div 262144) # (0x80 + (c div 4096) mod 64)
                # (0x80 + (c div 64) mod 64) # (0x80 + c mod 64) # bs))
           = u # v # utf8_units bs"
proof -
  define h l where "h = u - 0xD800" and "l = v - 0xDC00"
  from assms have h: "h < 1024" "u = 0xD800 + h" and l: "l < 1024" "v = 0xDC00 + l"
    by (auto simp: is_high_def is_low_def h_def l_def)
  define c where "c = 0x10000 + h * 1024 + l"
  define q3 r3 where "q3 = c div 64" and "r3 = c mod 64"
  define q2 r2 where "q2 = q3 div 64" and "r2 = q3 mod 64"
  define q1 r1 where "q1 = q2 div 64" and "r1 = q2 mod 64"
  have c3: "c = q3 * 64 + r3" and r3: "r3 < 64" by (simp_all add: q3_def r3_def)
  have c2: "q3 = q2 * 64 + r2" and r2: "r2 < 64" by (simp_all add: q2_def r2_def)
  have c1: "q2 = q1 * 64 + r1" and r1: "r1 < 64" by (simp_all add: q1_def r1_def)
  have d4096: "c div 4096 = q2" unfolding q2_def q3_def by (simp add: div_mult2_eq [symmetric])
  have d262144: "c div 262144 = q1"
    unfolding q1_def q2_def q3_def by (simp add: div_mult2_eq [symmetric])
  have cb: "0x10000 \<le> c" "c < 0x110000" using h(1) l(1) by (simp_all add: c_def)
  from cb c3 c2 c1 r3 r2 r1 have q1: "q1 \<le> 4" by linarith
  have lo: "q1 = 0 \<Longrightarrow> 16 \<le> r1" using cb(1) c3 c2 c1 r3 r2 by linarith
  have hi: "q1 = 4 \<Longrightarrow> r1 < 16" using cb(2) c3 c2 c1 by linarith
  have k1: "(if 0xF0 + q1 = 0xF0 then 0x90 else 0x80) \<le> 0x80 + r1 \<and>
            0x80 + r1 \<le> (if 0xF0 + q1 = 0xF4 then 0x8F else 0xBF)"
    using lo hi r1 by auto
  have k2: "continuation (0x80 + r2)" using r2 by (simp add: continuation_def)
  have k3: "continuation (0x80 + r3)" using r3 by (simp add: continuation_def)
  from strip_lead [of q1 8 30] q1 have d: "(0xF0 + q1) mod 8 = q1" by simp
  from strip_lead [of r1 64 2] r1 have e1: "(0x80 + r1) mod 64 = r1" by simp
  from strip_lead [of r2 64 2] r2 have e2: "(0x80 + r2) mod 64 = r2" by simp
  from strip_lead [of r3 64 2] r3 have e3: "(0x80 + r3) mod 64 = r3" by simp
  from q1 have f: "\<not> 0xF0 + q1 < 0x80" "\<not> (0xC2 \<le> 0xF0 + q1 \<and> 0xF0 + q1 \<le> 0xDF)"
    "\<not> (0xE0 \<le> 0xF0 + q1 \<and> 0xF0 + q1 \<le> 0xEF)"
    "0xF0 \<le> 0xF0 + q1 \<and> 0xF0 + q1 \<le> 0xF4" by simp_all
  have dec: "utf8_units ((0xF0 + q1) # (0x80 + r1) # (0x80 + r2) # (0x80 + r3) # bs)
          = code_point_units (q1 * 262144 + r1 * 4096 + r2 * 64 + r3) @ utf8_units bs"
    apply (subst utf8_units.simps)
    apply (simp only: f k1 k2 k3 d e1 e2 e3 if_True if_False list.case simp_thms)
    done
  have re: "q1 * 262144 + r1 * 4096 + r2 * 64 + r3 = c" using c3 c2 c1 by simp
  have "c - 0x10000 = h * 1024 + l" by (simp add: c_def)
  with l(1) have "(c - 0x10000) div 1024 = h" "(c - 0x10000) mod 1024 = l" by simp_all
  with cb(1) h(2) l(2) have cp: "code_point_units c = [u, v]" by (simp add: code_point_units_def)
  have "utf8_units ((0xF0 + c div 262144) # (0x80 + (c div 4096) mod 64)
                # (0x80 + (c div 64) mod 64) # (0x80 + c mod 64) # bs) = u # v # utf8_units bs"
    unfolding d4096 d262144 unfolding r1_def [symmetric] q3_def [symmetric]
    unfolding r2_def [symmetric] r3_def [symmetric] unfolding dec re cp by simp
  moreover have "0x10000 + (u - 0xD800) * 1024 + (v - 0xDC00) = c"
    by (simp add: c_def h_def l_def)
  ultimately show ?thesis by (simp only: Let_def)
qed

lemma decode_replacement: "utf8_units (0xEF # 0xBF # 0xBD # bs) = 0xFFFD # utf8_units bs"
  by (simp add: continuation_def)


lemma surrogate_not_small:
  "is_high u \<Longrightarrow> \<not> u < 0x80 \<and> \<not> u < 0x800"
  "is_low u \<Longrightarrow> \<not> u < 0x80 \<and> \<not> u < 0x800 \<and> \<not> is_high u"
  by (auto simp: is_high_def is_low_def)

lemma decode_encode:
  "list_all (\<lambda>u. u < 0x10000) s \<Longrightarrow> utf8_units (utf8_bytes s) = toWellFormed s"
proof (induction s rule: toWellFormed.induct)
  case 1
  show ?case by simp
next
  case (2 u us)
  from "2.prems" have u: "u < 0x10000" and us: "list_all (\<lambda>u. u < 0x10000) us" by simp_all
  show ?case
  proof (cases "is_high u")
    case True
    note nh = surrogate_not_small(1) [OF True]
    show ?thesis
    proof (cases us)
      case Nil
      have "utf8_bytes (u # us) = [0xEF, 0xBF, 0xBD]"
        unfolding Nil by (simp only: utf8_bytes.simps nh True if_True if_False list.case)
      with True Nil show ?thesis by (simp add: continuation_def)
    next
      case (Cons v r)
      show ?thesis
      proof (cases "is_low v")
        case low: True
        from us Cons have "list_all (\<lambda>u. u < 0x10000) r" by simp
        with "2.IH"(1) [OF True Cons low] have ih: "utf8_units (utf8_bytes r) = toWellFormed r" .
        have "utf8_units (utf8_bytes (u # v # r)) = u # v # utf8_units (utf8_bytes r)"
          using decode_four [OF True low, of "utf8_bytes r"]
          by (simp only: utf8_bytes.simps nh True low if_True if_False list.case Let_def)
        with ih True low Cons show ?thesis by simp
      next
        case nlow: False
        from "2.IH"(2) [OF True Cons nlow] us have ih: "utf8_units (utf8_bytes us) = toWellFormed us" .
        have "utf8_bytes (u # v # r) = 0xEF # 0xBF # 0xBD # utf8_bytes (v # r)"
          by (simp only: utf8_bytes.simps(2) [of u "v # r"] nh True nlow if_True if_False list.case)
        then have "utf8_units (utf8_bytes (u # us)) = 0xFFFD # utf8_units (utf8_bytes us)"
          unfolding Cons by (simp only: decode_replacement)
        with ih True nlow Cons show ?thesis by simp
      qed
    qed
  next
    case nhigh: False
    show ?thesis
    proof (cases "is_low u")
      case True
      note nl = surrogate_not_small(2) [OF True]
      from "2.IH"(3) [OF nhigh True] us have ih: "utf8_units (utf8_bytes us) = toWellFormed us" .
      have "utf8_bytes (u # us) = 0xEF # 0xBF # 0xBD # utf8_bytes us"
        by (simp only: utf8_bytes.simps nl True if_True if_False)
      then have "utf8_units (utf8_bytes (u # us)) = 0xFFFD # utf8_units (utf8_bytes us)"
        by (simp only: decode_replacement)
      with ih nhigh True show ?thesis by simp
    next
      case False
      from "2.IH"(4) [OF nhigh False] us have ih: "utf8_units (utf8_bytes us) = toWellFormed us" .
      have "utf8_units (utf8_bytes (u # us)) = u # utf8_units (utf8_bytes us)"
      proof (cases "u < 0x80")
        case True
        then show ?thesis by simp
      next
        case a: False
        show ?thesis
        proof (cases "u < 0x800")
          case True
          have "utf8_bytes (u # us) = (0xC0 + u div 64) # (0x80 + u mod 64) # utf8_bytes us"
            by (simp only: utf8_bytes.simps a True if_True if_False)
          then show ?thesis by (simp only: decode_two [OF a True])
        next
          case b: False
          have "utf8_bytes (u # us) =
              (0xE0 + u div 4096) # (0x80 + (u div 64) mod 64) # (0x80 + u mod 64) # utf8_bytes us"
            by (simp only: utf8_bytes.simps a b nhigh False if_True if_False)
          then show ?thesis by (simp only: decode_three [OF b u nhigh False])
        qed
      qed
      with ih nhigh False show ?thesis by simp
    qed
  qed
qed

lemma bytes_in_range:
  "list_all (\<lambda>u. u < 0x10000) s \<Longrightarrow> list_all (\<lambda>b. b < 256) (utf8_bytes s)"
proof (induction s rule: utf8_bytes.induct)
  case 1
  show ?case by simp
next
  case (2 u us)
  from "2.prems" have u: "u < 0x10000" and us: "list_all (\<lambda>u. u < 0x10000) us" by simp_all
  have m: "k mod 64 < 128" for k :: nat by (rule less_trans [of _ 64]) simp_all
  show ?case
  proof (cases "u < 0x80")
    case True
    with "2.IH"(1) us show ?thesis by simp
  next
    case a: False
    show ?thesis
    proof (cases "u < 0x800")
      case True
      then have "u div 64 < 32" by simp
      with "2.IH"(2) [OF a True] us a True show ?thesis by (simp add: m)
    next
      case b: False
      show ?thesis
      proof (cases "is_high u")
        case True
        show ?thesis
        proof (cases us)
          case Nil
          with a b True show ?thesis by simp
        next
          case (Cons v r)
          show ?thesis
          proof (cases "is_low v")
            case low: True
            define c where "c = 0x10000 + (u - 0xD800) * 1024 + (v - 0xDC00)"
            from True have "u - 0xD800 \<le> 1023" unfolding is_high_def by linarith
            then have "(u - 0xD800) * 1024 \<le> 1023 * 1024" by (rule mult_le_mono1)
            moreover from low have "v - 0xDC00 \<le> 1023" unfolding is_low_def by linarith
            ultimately have "c < 0x110000" by (simp add: c_def)
            then have "c div 262144 < 5" by simp
            moreover from us Cons have "list_all (\<lambda>u. u < 0x10000) r" by simp
            with "2.IH"(3) [OF a b True Cons low refl] have "list_all (\<lambda>b. b < 256) (utf8_bytes r)" .
            ultimately show ?thesis
              using a b True low Cons
              by (simp add: c_def [symmetric] Let_def m)
          next
            case nlow: False
            with "2.IH"(4) [OF a b True Cons nlow] us a b True Cons show ?thesis by simp
          qed
        qed
      next
        case nhigh: False
        show ?thesis
        proof (cases "is_low u")
          case True
          with "2.IH"(5) [OF a b nhigh True] us a b nhigh show ?thesis by simp
        next
          case False
          from u have "u div 4096 < 16" by simp
          with "2.IH"(6) [OF a b nhigh False] us a b nhigh False
          show ?thesis by (simp add: m)
        qed
      qed
    qed
  qed
qed

lemma well_formed_fixed:
  "isWellFormed s \<Longrightarrow> toWellFormed s = s"
proof (induction s rule: toWellFormed.induct)
  case 1
  show ?case by simp
next
  case (2 u us)
  show ?case
  proof (cases "is_high u")
    case True
    with "2.prems" obtain v r where us: "us = v # r" and low: "is_low v" and wf: "isWellFormed r"
      by (cases us) simp_all
    from "2.IH"(1) [OF True us low wf] True us low show ?thesis by simp
  next
    case False
    with "2.prems" have nl: "\<not> is_low u" and wf: "isWellFormed us" by simp_all
    from "2.IH"(4) [OF False nl wf] False nl show ?thesis by simp
  qed
qed

lemma replacement_not_surrogate: "\<not> is_high 0xFFFD" "\<not> is_low 0xFFFD"
  by (simp_all add: is_high_def is_low_def)

lemma fixed_well_formed:
  "toWellFormed s = s \<Longrightarrow> isWellFormed s"
proof (induction s rule: toWellFormed.induct)
  case 1
  show ?case by simp
next
  case (2 u us)
  show ?case
  proof (cases "is_high u")
    case True
    show ?thesis
    proof (cases us)
      case Nil
      with "2.prems" True replacement_not_surrogate(1) show ?thesis by simp
    next
      case (Cons v r)
      show ?thesis
      proof (cases "is_low v")
        case low: True
        with "2.prems" True Cons have "toWellFormed r = r" by simp
        from "2.IH"(1) [OF True Cons low this] True Cons low show ?thesis by simp
      next
        case nlow: False
        with "2.prems" True Cons have "u = 0xFFFD" by simp
        with True replacement_not_surrogate(1) show ?thesis by simp
      qed
    qed
  next
    case False
    show ?thesis
    proof (cases "is_low u")
      case True
      with "2.prems" False have "u = 0xFFFD" by simp
      with True replacement_not_surrogate(2) show ?thesis by simp
    next
      case nl: False
      with "2.prems" False have "toWellFormed us = us" by simp
      from "2.IH"(4) [OF False nl this] False nl show ?thesis by simp
    qed
  qed
qed

lemma hex_val_digit: "n < 16 \<Longrightarrow> hex_val (hex_digit n) = Some n"
  by (auto simp: hex_val_def hex_digit_def Let_def)

lemma byte_split: "(of_nat (16 * (unat b div 16) + unat b mod 16) :: 8 word) = b"
  by simp

lemma unat_byte_div: "unat (b :: 8 word) div 16 < 16"
proof -
  have "unat b < 2 ^ LENGTH(8)" by (rule unsigned_less)
  then have "unat b < 256" by simp
  then show ?thesis by simp
qed

lemma toHex_Cons:
  "toHex (b # bs) = hex_digit (unat b div 16) # hex_digit (unat b mod 16) # toHex bs"
  by (simp add: toHex_def)

lemma fromHex_toHex: "fromHex (toHex bs) = bs"
proof (induction bs)
  case Nil
  show ?case by (simp add: toHex_def)
next
  case (Cons b bs)
  from Cons show ?case
    by (simp add: toHex_Cons hex_val_digit unat_byte_div byte_split del: of_nat_add of_nat_mult)
qed

lemma hex_digit_not_colon:
  assumes n: "n < 16"
  shows "hex_digit n \<noteq> CHR '':''" and "CHR '':'' \<noteq> hex_digit n"
proof -
  have "hex_val (CHR '':'') = None" by (simp add: hex_val_def)
  with hex_val_digit [OF n] show "hex_digit n \<noteq> CHR '':''" by auto
  then show "CHR '':'' \<noteq> hex_digit n" by (rule not_sym)
qed

lemma toHex_no_colon: "CHR '':'' \<notin> set (toHex bs)"
proof (induction bs)
  case Nil
  show ?case by (simp add: toHex_def)
next
  case (Cons b bs)
  have "unat b mod 16 < 16" by simp
  with Cons unat_byte_div [of b] show ?case
    by (simp add: toHex_Cons hex_digit_not_colon)
qed

lemma split_on_none: "sep \<notin> set a \<Longrightarrow> split_on sep a = [a]"
  by (induction a) auto

lemma split_on_first: "sep \<notin> set a \<Longrightarrow> split_on sep (a @ sep # rest) = a # split_on sep rest"
  by (induction a) auto

lemma split_three:
  "sep \<notin> set a \<Longrightarrow> sep \<notin> set b \<Longrightarrow> sep \<notin> set c \<Longrightarrow>
     split_on sep (a @ [sep] @ b @ [sep] @ c) = [a, b, c]"
  by (simp add: split_on_first split_on_none)

lemma decrypt_bad_format:
  "length (split_on (CHR '':'') c) \<noteq> 3 \<Longrightarrow>
     decrypt decipher c = Inl ''Failed to decrypt data'' \<or>
     decrypt decipher c = Inl ''Encrypted data cannot be empty''"
  by (auto simp: decrypt_def split: list.splits)

lemma utf8_roundtrip:
  assumes "list_all (\<lambda>u. u < 0x10000) t"
  shows "utf8_decode (utf8_encode t) = toWellFormed t"
proof -
  from bytes_in_range [OF assms] have "map unat (map of_nat (utf8_bytes t) :: 8 word list) = utf8_bytes t"
  proof (induction "utf8_bytes t" arbitrary: t)
    case Nil
    then show ?case by simp
  next
    case (Cons b bs)
    then show ?case by (simp add: list_all_iff unat_of_nat map_idI)
  qed
  with decode_encode [OF assms] show ?thesis by (simp add: utf8_decode_def utf8_encode_def)
qed

lemma encrypt_decrypt:
  assumes "t \<noteq> []" and "list_all (\<lambda>u. u < 0x10000) t"
    and "cipher iv (utf8_encode t) = Some (enc, tag)"
    and "decipher iv enc tag = Some (utf8_encode t)"
  shows "encrypt cipher iv (Some t) = Inr (toHex iv @ '':'' @ toHex enc @ '':'' @ toHex tag)"
    and "decrypt decipher (toHex iv @ '':'' @ toHex enc @ '':'' @ toHex tag) = Inr (toWellFormed t)"
proof -
  from assms(1,3) show "encrypt cipher iv (Some t) = Inr (toHex iv @ '':'' @ toHex enc @ '':'' @ toHex tag)"
    by (simp add: encrypt_def)
  have "split_on (CHR '':'') (toHex iv @ [CHR '':''] @ toHex enc @ [CHR '':''] @ toHex tag)
      = [toHex iv, toHex enc, toHex tag]"
    by (rule split_three) (rule toHex_no_colon)+
  then have sp: "split_on (CHR '':'') (toHex iv @ '':'' @ toHex enc @ '':'' @ toHex tag)
      = [toHex iv, toHex enc, toHex tag]" by simp
  show "decrypt decipher (toHex iv @ '':'' @ toHex enc @ '':'' @ toHex tag) = Inr (toWellFormed t)"
    unfolding decrypt_def sp using assms(4)
    by (simp add: fromHex_toHex utf8_roundtrip [OF assms(2)])
qed

lemma lone_surrogate_bytes: "utf8_encode [0xD800] = [0xEF, 0xBF, 0xBD]"
  by (simp add: utf8_encode_def is_high_def)

text \<open>
  C10, refuted as stated. The string of the single code unit \<open>D800\<close>, a surrogate
  without its partner, is not empty; it is encrypted as the bytes of U+FFFD, and the
  decryption of the result is the string of the code unit \<open>FFFD\<close>, not the string that
  was encrypted. The cipher of the example masks every byte and deciphers its own
  output, as AES-GCM does.
\<close>

theorem encrypt_decrypt_counterexample:
  "utf8_encode [0xD800] = [0xEF, 0xBF, 0xBD] \<and>
   toy_cipher example_iv (utf8_encode [0xD800]) = Some ([0xb5, 0xe5, 0xe7], example_iv) \<and>
   toy_decipher example_iv [0xb5, 0xe5, 0xe7] example_iv = Some (utf8_encode [0xD800]) \<and>
   encrypt toy_cipher example_iv (Some [0xD800])
     = Inr ''00112233445566778899aabbccddeeff:b5e5e7:00112233445566778899aabbccddeeff'' \<and>
   decrypt toy_decipher ''00112233445566778899aabbccddeeff:b5e5e7:00112233445566778899aabbccddeeff''
     = Inr [0xFFFD] \<and>
   decrypt toy_decipher ''00112233445566778899aabbccddeeff:b5e5e7:00112233445566778899aabbccddeeff''
     \<noteq> Inr [0xD800]"
proof -
  note b = lone_surrogate_bytes
  have c: "toy_cipher example_iv (utf8_encode [0xD800]) = Some ([0xb5, 0xe5, 0xe7], example_iv)"
    unfolding b by (simp add: toy_cipher_def)
  have d: "toy_decipher example_iv [0xb5, 0xe5, 0xe7] example_iv = Some (utf8_encode [0xD800])"
    unfolding b by (simp add: toy_decipher_def)
  have h1: "toHex example_iv = ''00112233445566778899aabbccddeeff''"
    by code_simp
  have h2: "toHex [0xb5, 0xe5, 0xe7 :: 8 word] = ''b5e5e7''"
    by code_simp
  have w: "toWellFormed [0xD800] = [0xFFFD]" by (simp add: is_high_def)
  have ne: "[0xD800 :: nat] \<noteq> []" and rg: "list_all (\<lambda>u. u < 0x10000) [0xD800 :: nat]" by simp_all
  note r = encrypt_decrypt [of "[0xD800]" toy_cipher example_iv "[0xb5, 0xe5, 0xe7]" example_iv
      toy_decipher, OF ne rg c d]
  from r(1) have e: "encrypt toy_cipher example_iv (Some [0xD800])
     = Inr ''00112233445566778899aabbccddeeff:b5e5e7:00112233445566778899aabbccddeeff''"
    unfolding h1 h2 by simp
  from r(2) have f: "decrypt toy_decipher
       ''00112233445566778899aabbccddeeff:b5e5e7:00112233445566778899aabbccddeeff'' = Inr [0xFFFD]"
    unfolding h1 h2 w by simp
  from f have g: "decrypt toy_decipher
       ''00112233445566778899aabbccddeeff:b5e5e7:00112233445566778899aabbccddeeff'' \<noteq> Inr [0xD800]"
    by simp
  from b c d e f g show ?thesis by (intro conjI)
qed

text \<open>
  C10, amended. Under a fixed key: whenever the cipher encrypts a non-empty string with
  the drawn nonce and deciphering that ciphertext with the same nonce and tag gives the
  plaintext back (the contract of AES-GCM), \<open>encrypt\<close> returns
  \<open>iv:encrypted:authTag\<close> in hex and \<open>decrypt\<close> of that string returns the string
  with every unpaired surrogate replaced by U+FFFD; it is the encrypted string exactly
  when that string is well formed. \<open>encrypt\<close> of the empty string, of \<open>null\<close> or of
  \<open>undefined\<close> throws, and \<open>decrypt\<close> throws on every input that does not split
  into exactly three parts at the colons.
\<close>

theorem encrypt_decrypt_roundtrip:
  "(t \<noteq> [] \<and> list_all (\<lambda>u. u < 0x10000) t \<and> cipher iv (utf8_encode t) = Some (enc, tag) \<and>
    decipher iv enc tag = Some (utf8_encode t) \<longrightarrow>
      encrypt cipher iv (Some t) = Inr (toHex iv @ '':'' @ toHex enc @ '':'' @ toHex tag) \<and>
      decrypt decipher (toHex iv @ '':'' @ toHex enc @ '':'' @ toHex tag) = Inr (toWellFormed t) \<and>
      ((decrypt decipher (toHex iv @ '':'' @ toHex enc @ '':'' @ toHex tag) = Inr t)
         = isWellFormed t)) \<and>
   encrypt cipher iv (Some []) = Inl ''Text to encrypt cannot be empty'' \<and>
   encrypt cipher iv None = Inl ''Text to encrypt cannot be empty'' \<and>
   (length (split_on (CHR '':'') c) \<noteq> 3 \<longrightarrow>
      decrypt decipher c = Inl ''Failed to decrypt data'' \<or>
      decrypt decipher c = Inl ''Encrypted data cannot be empty'')"
proof -
  have e: "encrypt cipher iv (Some []) = Inl ''Text to encrypt cannot be empty''"
    "encrypt cipher iv None = Inl ''Text to encrypt cannot be empty''"
    by (simp_all add: encrypt_def)
  have wf: "(toWellFormed t = t) = isWellFormed t"
    using well_formed_fixed [of t] fixed_well_formed [of t] by blast
  have main: "t \<noteq> [] \<and> list_all (\<lambda>u. u < 0x10000) t \<and> cipher iv (utf8_encode t) = Some (enc, tag) \<and>
    decipher iv enc tag = Some (utf8_encode t) \<longrightarrow>
      encrypt cipher iv (Some t) = Inr (toHex iv @ '':'' @ toHex enc @ '':'' @ toHex tag) \<and>
      decrypt decipher (toHex iv @ '':'' @ toHex enc @ '':'' @ toHex tag) = Inr (toWellFormed t) \<and>
      ((decrypt decipher (toHex iv @ '':'' @ toHex enc @ '':'' @ toHex tag) = Inr t)
         = isWellFormed t)"
  proof (intro impI, elim conjE)
    assume a: "t \<noteq> []" "list_all (\<lambda>u. u < 0x10000) t" "cipher iv (utf8_encode t) = Some (enc, tag)"
      "decipher iv enc tag = Some (utf8_encode t)"
    note r = encrypt_decrypt [of t cipher iv enc tag decipher, OF a]
    from r(2) wf have "(decrypt decipher (toHex iv @ '':'' @ toHex enc @ '':'' @ toHex tag) = Inr t)
         = isWellFormed t" by simp
    with r show "encrypt cipher iv (Some t) = Inr (toHex iv @ '':'' @ toHex enc @ '':'' @ toHex tag) \<and>
      decrypt decipher (toHex iv @ '':'' @ toHex enc @ '':'' @ toHex tag) = Inr (toWellFormed t) \<and>
      ((decrypt decipher (toHex iv @ '':'' @ toHex enc @ '':'' @ toHex tag) = Inr t)
         = isWellFormed t)" by (intro conjI)
  qed
  from main e decrypt_bad_format [of c decipher] show ?thesis by blast
qed

theorem encrypt_decrypt_roundtrip_witness:
  "[0x73, 0x6B, 0x2D, 0xE9, 0x20AC, 0xD83D, 0xDE00] \<noteq> ([] :: nat list) \<and>
   list_all (\<lambda>u. u < 0x10000) [0x73, 0x6B, 0x2D, 0xE9, 0x20AC, 0xD83D, 0xDE00 :: nat] \<and>
   isWellFormed [0x73, 0x6B, 0x2D, 0xE9, 0x20AC, 0xD83D, 0xDE00] \<and>
   toy_cipher example_iv (utf8_encode [0x73, 0x6B, 0x2D, 0xE9, 0x20AC, 0xD83D, 0xDE00])
     = Some ([0x29, 0x31, 0x77, 0x99, 0xf3, 0xb8, 0xd8, 0xf6, 0xaa, 0xc5, 0xc2, 0xda], example_iv) \<and>
   toy_decipher example_iv [0x29, 0x31, 0x77, 0x99, 0xf3, 0xb8, 0xd8, 0xf6, 0xaa, 0xc5, 0xc2, 0xda]
       example_iv
     = Some (utf8_encode [0x73, 0x6B, 0x2D, 0xE9, 0x20AC, 0xD83D, 0xDE00]) \<and>
   encrypt toy_cipher example_iv (Some [0x73, 0x6B, 0x2D, 0xE9, 0x20AC, 0xD83D, 0xDE00])
     = Inr ''00112233445566778899aabbccddeeff:29317799f3b8d8f6aac5c2da:00112233445566778899aabbccddeeff'' \<and>
   decrypt toy_decipher
       ''00112233445566778899aabbccddeeff:29317799f3b8d8f6aac5c2da:00112233445566778899aabbccddeeff''
     = Inr [0x73, 0x6B, 0x2D, 0xE9, 0x20AC, 0xD83D, 0xDE00] \<and>
   length (split_on (CHR '':'') ''2931776b:0011'') \<noteq> 3 \<and>
   decrypt toy_decipher ''2931776b:0011'' = Inl ''Failed to decrypt data''"
proof -
  have b: "utf8_encode [0x73, 0x6B, 0x2D, 0xE9, 0x20AC, 0xD83D, 0xDE00]
      = [0x73, 0x6b, 0x2d, 0xc3, 0xa9, 0xe2, 0x82, 0xac, 0xf0, 0x9f, 0x98, 0x80]"
    by (simp add: utf8_encode_def is_high_def is_low_def)
  have c: "toy_cipher example_iv (utf8_encode [0x73, 0x6B, 0x2D, 0xE9, 0x20AC, 0xD83D, 0xDE00])
     = Some ([0x29, 0x31, 0x77, 0x99, 0xf3, 0xb8, 0xd8, 0xf6, 0xaa, 0xc5, 0xc2, 0xda], example_iv)"
    unfolding b by (simp add: toy_cipher_def)
  have d: "toy_decipher example_iv [0x29, 0x31, 0x77, 0x99, 0xf3, 0xb8, 0xd8, 0xf6, 0xaa, 0xc5, 0xc2, 0xda]
       example_iv
     = Some (utf8_encode [0x73, 0x6B, 0x2D, 0xE9, 0x20AC, 0xD83D, 0xDE00])"
    unfolding b by (simp add: toy_decipher_def)
  have h1: "toHex example_iv = ''00112233445566778899aabbccddeeff''"
    by code_simp
  have h2: "toHex [0x29, 0x31, 0x77, 0x99, 0xf3, 0xb8, 0xd8, 0xf6, 0xaa, 0xc5, 0xc2, 0xda :: 8 word]
      = ''29317799f3b8d8f6aac5c2da''"
    by code_simp
  have w: "isWellFormed [0x73, 0x6B, 0x2D, 0xE9, 0x20AC, 0xD83D, 0xDE00]"
    by (simp add: is_high_def is_low_def)
  have ne: "[0x73, 0x6B, 0x2D, 0xE9, 0x20AC, 0xD83D, 0xDE00] \<noteq> ([] :: nat list)"
    and rg: "list_all (\<lambda>u. u < 0x10000) [0x73, 0x6B, 0x2D, 0xE9, 0x20AC, 0xD83D, 0xDE00 :: nat]"
    by simp_all
  have s: "length (split_on (CHR '':'') ''2931776b:0011'') \<noteq> 3" by simp
  have ne': "''2931776b:0011'' \<noteq> []" by simp
  from encrypt_decrypt_roundtrip [of "[0x73, 0x6B, 0x2D, 0xE9, 0x20AC, 0xD83D, 0xDE00]" toy_cipher
      example_iv "[0x29, 0x31, 0x77, 0x99, 0xf3, 0xb8, 0xd8, 0xf6, 0xaa, 0xc5, 0xc2, 0xda]"
      example_iv toy_decipher "''2931776b:0011''"] ne rg c d s w
  have r: "encrypt toy_cipher example_iv (Some [0x73, 0x6B, 0x2D, 0xE9, 0x20AC, 0xD83D, 0xDE00])
       = Inr (toHex example_iv @ '':''
           @ toHex [0x29, 0x31, 0x77, 0x99, 0xf3, 0xb8, 0xd8, 0xf6, 0xaa, 0xc5, 0xc2, 0xda] @ '':''
           @ toHex example_iv)"
    "decrypt toy_decipher (toHex example_iv @ '':''
           @ toHex [0x29, 0x31, 0x77, 0x99, 0xf3, 0xb8, 0xd8, 0xf6, 0xaa, 0xc5, 0xc2, 0xda] @ '':''
           @ toHex example_iv)
       = Inr [0x73, 0x6B, 0x2D, 0xE9, 0x20AC, 0xD83D, 0xDE00]"
    "decrypt toy_decipher ''2931776b:0011'' = Inl ''Failed to decrypt data'' \<or>
     decrypt toy_decipher ''2931776b:0011'' = Inl ''Encrypted data cannot be empty''"
    by blast+
  from r(3) ne' have bad: "decrypt toy_decipher ''2931776b:0011'' = Inl ''Failed to decrypt data''"
    by (auto simp: decrypt_def)
  from r(1) have e: "encrypt toy_cipher example_iv (Some [0x73, 0x6B, 0x2D, 0xE9, 0x20AC, 0xD83D, 0xDE00])
     = Inr ''00112233445566778899aabbccddeeff:29317799f3b8d8f6aac5c2da:00112233445566778899aabbccddeeff''"
    unfolding h1 h2 by simp
  from r(2) have f: "decrypt toy_decipher
       ''00112233445566778899aabbccddeeff:29317799f3b8d8f6aac5c2da:00112233445566778899aabbccddeeff''
     = Inr [0x73, 0x6B, 0x2D, 0xE9, 0x20AC, 0xD83D, 0xDE00]"
    unfolding h1 h2 by simp
  from ne rg w c d e f s bad show ?thesis by (intro conjI)
qed

end
